theory Spec2Isabelle
  imports Main "HOL-Library.Word"
begin

unbundle bit_operations_syntax

section \<open>Data model of \<^verbatim>\<open>raspberry_soft_uart.c\<close>\<close>

text \<open>
  The driver keeps its whole state in file-scope variables and in the \<^verbatim>\<open>static\<close> locals of
  the two timer callbacks. The embedding gathers them in one record and passes it through
  every function. A C \<^verbatim>\<open>int\<close> is a 32-bit word read as two's complement where the code
  compares it (\<open>\<le>s\<close>, \<open><s\<close>); \<^verbatim>\<open>unsigned char\<close> is an 8-bit word, \<^verbatim>\<open>unsigned int\<close> a 32-bit word.
  The mutex \<^verbatim>\<open>current_tty_mutex\<close> has no counterpart: functions of the model run one at a time.
  The acquisition of pins and interrupt in \<^verbatim>\<open>raspberry_soft_uart_init\<close>, their release in
  \<^verbatim>\<open>raspberry_soft_uart_finalize\<close> and the baud-rate setter are not modelled; the two periods
  are fields of the state.
\<close>

type_synonym c_int = "32 word"
type_synonym byte = "8 word"
type_synonym ktime = int

subsection \<open>The transmit queue\<close>

text \<open>
  Modelled from the spec: the byte queue of \<^verbatim>\<open>queue.h\<close> (\<^verbatim>\<open>struct queue\<close>,
  \<^verbatim>\<open>initialize_queue\<close>, \<^verbatim>\<open>enqueue_string\<close>, \<^verbatim>\<open>dequeue_character\<close>, \<^verbatim>\<open>get_queue_room\<close>,
  \<^verbatim>\<open>get_queue_size\<close>), which the driver includes and which is not among the sources. The spec
  describes a FIFO of bytes with a capacity fixed at construction; enqueueing accepts as many
  leading bytes as fit and reports how many; dequeueing removes the oldest byte or signals
  that the queue is empty; clearing keeps the capacity.
\<close>

record queue =
  items :: "byte list"
  capacity :: nat

definition initialize_queue :: "queue \<Rightarrow> queue" where
  "initialize_queue q = q\<lparr>items := []\<rparr>"

definition get_queue_size :: "queue \<Rightarrow> nat" where
  "get_queue_size q = length (items q)"

definition get_queue_room :: "queue \<Rightarrow> nat" where
  "get_queue_room q = capacity q - length (items q)"

definition enqueue_string :: "queue \<Rightarrow> byte list \<Rightarrow> nat \<times> queue" where
  "enqueue_string q string =
     (let accepted = take (get_queue_room q) string
      in (length accepted, q\<lparr>items := items q @ accepted\<rparr>))"

definition dequeue_character :: "queue \<Rightarrow> (byte \<times> queue) option" where
  "dequeue_character q =
     (case items q of
        [] \<Rightarrow> None
      | c # rest \<Rightarrow> Some (c, q\<lparr>items := rest\<rparr>))"

subsection \<open>Kernel objects the driver talks to\<close>

text \<open>
  A high-resolution timer is seen by the driver through \<^verbatim>\<open>hrtimer_active\<close>,
  \<^verbatim>\<open>hrtimer_start\<close>, \<^verbatim>\<open>hrtimer_forward\<close> and \<^verbatim>\<open>hrtimer_cancel\<close>. The model keeps whether
  the timer is queued and the list of programming calls made on it, oldest first, so that
  starting a timer that is already queued (which moves its expiry) is visible.
\<close>

datatype timer_call = Start ktime | Forward ktime | Cancel

record hrtimer =
  active :: bool
  calls :: "timer_call list"

definition hrtimer_active :: "hrtimer \<Rightarrow> bool" where
  "hrtimer_active t = active t"

definition hrtimer_start :: "hrtimer \<Rightarrow> ktime \<Rightarrow> hrtimer" where
  "hrtimer_start t delay = t\<lparr>active := True, calls := calls t @ [Start delay]\<rparr>"

definition hrtimer_forward :: "hrtimer \<Rightarrow> ktime \<Rightarrow> hrtimer" where
  "hrtimer_forward t interval = t\<lparr>calls := calls t @ [Forward interval]\<rparr>"

definition hrtimer_cancel :: "hrtimer \<Rightarrow> hrtimer" where
  "hrtimer_cancel t = t\<lparr>active := False, calls := calls t @ [Cancel]\<rparr>"

datatype hrtimer_restart = HRTIMER_NORESTART | HRTIMER_RESTART

text \<open>
  Of \<^verbatim>\<open>struct tty_struct\<close> the driver reads only the \<^verbatim>\<open>port\<close> pointer; pointers are
  numbers, \<^verbatim>\<open>NULL\<close> is \<open>None\<close>. A delivery records where a received character went: to the
  callback installed by \<^verbatim>\<open>raspberry_soft_uart_set_rx_callback\<close>, or into the flip buffer of a
  tty port.
\<close>

record tty_struct =
  tty_id :: nat
  port :: "nat option"

datatype delivery = To_callback nat byte | To_tty_port nat byte

fun delivery_byte :: "delivery \<Rightarrow> byte" where
  "delivery_byte (To_callback f c) = c"
| "delivery_byte (To_tty_port p c) = c"

subsection \<open>The driver state\<close>

record uart =
  queue_tx :: queue
  current_tty :: "tty_struct option"
  timer_tx :: hrtimer
  timer_rx :: hrtimer
  period :: ktime
  half_period :: ktime
  rx_bit_index :: c_int
  rx_callback :: "nat option"
  stop_bits :: c_int
  parity_en :: c_int
  ignore_parity_errors :: c_int
  parity_init :: c_int
  final_stop_bit_index :: c_int
  parity_index :: c_int
  \<comment> \<open>static locals of \<^verbatim>\<open>handle_tx\<close>: \<^verbatim>\<open>character\<close>, \<^verbatim>\<open>bit_index\<close>, \<^verbatim>\<open>parity\<close>\<close>
  tx_character :: byte
  tx_bit_index :: c_int
  tx_parity :: c_int
  \<comment> \<open>static locals of \<^verbatim>\<open>handle_rx\<close>: \<^verbatim>\<open>character\<close>, \<^verbatim>\<open>parity\<close>, \<^verbatim>\<open>parity_ok\<close>\<close>
  rx_character :: "32 word"
  rx_parity :: c_int
  rx_parity_ok :: bool
  \<comment> \<open>the outside world: level last written to the TX pin, state of the RX interrupt line,
     characters handed over so far (oldest first)\<close>
  gpio_tx_value :: c_int
  irq_rx_enabled :: bool
  delivered :: "delivery list"

text \<open>
  The state after \<^verbatim>\<open>raspberry_soft_uart_init\<close>: the values of the C initialisers, the TX
  pin driven high and the RX interrupt disabled, for a queue of capacity \<open>cap\<close>.
\<close>

definition initial_uart :: "nat \<Rightarrow> uart" where
  "initial_uart cap =
     \<lparr> queue_tx = \<lparr>items = [], capacity = cap\<rparr>,
       current_tty = None,
       timer_tx = \<lparr>active = False, calls = []\<rparr>,
       timer_rx = \<lparr>active = False, calls = []\<rparr>,
       period = 0,
       half_period = 0,
       rx_bit_index = - 1,
       rx_callback = None,
       stop_bits = 1,
       parity_en = 0,
       ignore_parity_errors = 0,
       parity_init = 0,
       final_stop_bit_index = 8,
       parity_index = - 1,
       tx_character = 0,
       tx_bit_index = - 1,
       tx_parity = 0,
       rx_character = 0,
       rx_parity = 0,
       rx_parity_ok = True,
       gpio_tx_value = 1,
       irq_rx_enabled = False,
       delivered = [] \<rparr>"

section \<open>Session and configuration\<close>

definition raspberry_soft_uart_open :: "tty_struct \<Rightarrow> uart \<Rightarrow> c_int \<times> uart" where
  "raspberry_soft_uart_open tty s =
     (let s1 = s\<lparr>rx_bit_index := - 1\<rparr>
      in if current_tty s1 = None
         then (1, s1\<lparr>current_tty := Some tty,
                     queue_tx := initialize_queue (queue_tx s1),
                     irq_rx_enabled := True\<rparr>)
         else (0, s1))"

definition raspberry_soft_uart_close :: "uart \<Rightarrow> c_int \<times> uart" where
  "raspberry_soft_uart_close s =
     (1, s\<lparr>irq_rx_enabled := False,
            timer_tx := hrtimer_cancel (timer_tx s),
            timer_rx := hrtimer_cancel (timer_rx s),
            current_tty := None\<rparr>)"

definition recalc_indices :: "uart \<Rightarrow> uart" where
  "recalc_indices s =
     (if parity_en s \<noteq> 0
      then s\<lparr>parity_index := 8, final_stop_bit_index := 8 + stop_bits s\<rparr>
      else s\<lparr>parity_index := - 1, final_stop_bit_index := 7 + stop_bits s\<rparr>)"

definition raspberry_soft_uart_set_stop_bits :: "c_int \<Rightarrow> uart \<Rightarrow> c_int \<times> uart" where
  "raspberry_soft_uart_set_stop_bits stop_bits' s =
     (1, recalc_indices (s\<lparr>stop_bits := stop_bits'\<rparr>))"

definition raspberry_soft_uart_set_parity ::
    "c_int \<Rightarrow> c_int \<Rightarrow> c_int \<Rightarrow> uart \<Rightarrow> c_int \<times> uart" where
  "raspberry_soft_uart_set_parity parity_en' parity_odd ignore_parity_errors' s =
     (1, recalc_indices
           (s\<lparr>parity_en := parity_en',
              parity_init := (if parity_odd \<noteq> 0 then 1 else 0),
              ignore_parity_errors := ignore_parity_errors'\<rparr>))"

definition raspberry_soft_uart_send_string :: "byte list \<Rightarrow> uart \<Rightarrow> nat \<times> uart" where
  "raspberry_soft_uart_send_string string s =
     (let (result, q) = enqueue_string (queue_tx s) string;
          s1 = s\<lparr>queue_tx := q\<rparr>;
          s2 = (if \<not> hrtimer_active (timer_tx s1)
                then s1\<lparr>timer_tx := hrtimer_start (timer_tx s1) (period s1)\<rparr>
                else s1)
      in (result, s2))"

definition raspberry_soft_uart_get_tx_queue_room :: "uart \<Rightarrow> nat" where
  "raspberry_soft_uart_get_tx_queue_room s = get_queue_room (queue_tx s)"

definition raspberry_soft_uart_get_tx_queue_size :: "uart \<Rightarrow> nat" where
  "raspberry_soft_uart_get_tx_queue_size s = get_queue_size (queue_tx s)"

definition raspberry_soft_uart_set_rx_callback :: "nat option \<Rightarrow> uart \<Rightarrow> c_int \<times> uart" where
  "raspberry_soft_uart_set_rx_callback callback s = (1, s\<lparr>rx_callback := callback\<rparr>)"

section \<open>Interrupt and timer handlers\<close>

definition handle_rx_start :: "uart \<Rightarrow> uart" where
  "handle_rx_start s =
     (if rx_bit_index s = - 1
      then s\<lparr>timer_rx := hrtimer_start (timer_rx s) (half_period s)\<rparr>
      else s)"

text \<open>
  \<^verbatim>\<open>receive_character\<close>, in the branch compiled for kernels from 3.10 on (the other branch
  names a variable \<^verbatim>\<open>tty\<close> that is not declared).
\<close>

definition receive_character :: "byte \<Rightarrow> uart \<Rightarrow> uart" where
  "receive_character character s =
     (case rx_callback s of
        Some f \<Rightarrow> s\<lparr>delivered := delivered s @ [To_callback f character]\<rparr>
      | None \<Rightarrow>
          (case current_tty s of
             None \<Rightarrow> s
           | Some tty \<Rightarrow>
               (case port tty of
                  None \<Rightarrow> s
                | Some p \<Rightarrow> s\<lparr>delivered := delivered s @ [To_tty_port p character]\<rparr>)))"

text \<open>
  Both callbacks end with the same lines: when \<^verbatim>\<open>must_restart_timer\<close> is set the timer is
  forwarded by one period and the callback returns \<^verbatim>\<open>HRTIMER_RESTART\<close>.
\<close>

definition handle_tx :: "uart \<Rightarrow> hrtimer_restart \<times> uart" where
  "handle_tx s =
     (let (must_restart_timer, s1) =
        (if tx_bit_index s = - 1 then
           (case dequeue_character (queue_tx s) of
              Some (c, q) \<Rightarrow>
                (True, s\<lparr>queue_tx := q, tx_character := c, gpio_tx_value := 0,
                         tx_bit_index := tx_bit_index s + 1, tx_parity := parity_init s\<rparr>)
            | None \<Rightarrow> (False, s))
         else if 0 \<le>s tx_bit_index s \<and> tx_bit_index s <s 8 then
           (let bit_value = 1 AND drop_bit (unat (tx_bit_index s)) (ucast (tx_character s))
            in (True, s\<lparr>gpio_tx_value := bit_value,
                        tx_parity := tx_parity s XOR bit_value,
                        tx_bit_index := tx_bit_index s + 1\<rparr>))
         else if tx_bit_index s = parity_index s then
           (True, s\<lparr>gpio_tx_value := tx_parity s, tx_bit_index := tx_bit_index s + 1\<rparr>)
         else if tx_bit_index s \<le>s final_stop_bit_index s then
           (if tx_bit_index s = final_stop_bit_index s
            then (0 < get_queue_size (queue_tx s),
                  s\<lparr>gpio_tx_value := 1, tx_character := 0, tx_bit_index := - 1,
                    tx_parity := 0\<rparr>)
            else (True, s\<lparr>gpio_tx_value := 1, tx_bit_index := tx_bit_index s + 1\<rparr>))
         else (False, s))
      in if must_restart_timer
         then (HRTIMER_RESTART, s1\<lparr>timer_tx := hrtimer_forward (timer_tx s1) (period s1)\<rparr>)
         else (HRTIMER_NORESTART, s1))"

text \<open>\<open>bit_value\<close> is what \<^verbatim>\<open>gpio_get_value(gpio_rx)\<close> returns at this tick.\<close>

definition handle_rx :: "c_int \<Rightarrow> uart \<Rightarrow> hrtimer_restart \<times> uart" where
  "handle_rx bit_value s =
     (let (must_restart_timer, s1) =
        (if rx_bit_index s = - 1 then
           (True, s\<lparr>rx_bit_index := rx_bit_index s + 1, rx_character := 0,
                    rx_parity := parity_init s, rx_parity_ok := True\<rparr>)
         else if 0 \<le>s rx_bit_index s \<and> rx_bit_index s <s 8 then
           (let character = (if bit_value = 0 then rx_character s AND 0xfeff
                             else rx_character s OR 0x0100)
            in (True, s\<lparr>rx_parity := rx_parity s XOR bit_value,
                        rx_bit_index := rx_bit_index s + 1,
                        rx_character := drop_bit 1 character\<rparr>))
         else if rx_bit_index s = parity_index s then
           (True, s\<lparr>rx_parity_ok := (if bit_value \<noteq> rx_parity s then False
                                      else rx_parity_ok s),
                    rx_bit_index := rx_bit_index s + 1\<rparr>)
         else if rx_bit_index s <s final_stop_bit_index s then
           (True, s\<lparr>rx_bit_index := rx_bit_index s + 1\<rparr>)
         else if rx_bit_index s = final_stop_bit_index s then
           (False,
            (if rx_parity_ok s \<or> ignore_parity_errors s \<noteq> 0
             then receive_character (ucast (rx_character s)) s
             else s)\<lparr>rx_bit_index := - 1\<rparr>)
         else (False, s))
      in if must_restart_timer
         then (HRTIMER_RESTART, s1\<lparr>timer_rx := hrtimer_forward (timer_rx s1) (period s1)\<rparr>)
         else (HRTIMER_NORESTART, s1))"

section \<open>Auxiliary notions for the statements\<close>

text \<open>
  The derived frame-layout variables agree with the flags, the way \<^verbatim>\<open>recalc_indices\<close>
  leaves them.
\<close>

definition layout_consistent :: "uart \<Rightarrow> bool" where
  "layout_consistent s =
     (if parity_en s \<noteq> 0
      then parity_index s = 8 \<and> final_stop_bit_index s = 8 + stop_bits s
      else parity_index s = - 1 \<and> final_stop_bit_index s = 7 + stop_bits s)"

datatype setter_call = Set_stop_bits c_int | Set_parity c_int c_int c_int

fun apply_setter :: "setter_call \<Rightarrow> uart \<Rightarrow> uart" where
  "apply_setter (Set_stop_bits n) s = snd (raspberry_soft_uart_set_stop_bits n s)"
| "apply_setter (Set_parity en po ign) s = snd (raspberry_soft_uart_set_parity en po ign s)"

fun apply_setters :: "setter_call list \<Rightarrow> uart \<Rightarrow> uart" where
  "apply_setters [] s = s"
| "apply_setters (c # cs) s = apply_setters cs (apply_setter c s)"

text \<open>
  What the hrtimer core does with the TX timer: its callback runs only while the timer is
  queued, and afterwards the timer stays queued exactly when the callback returned
  \<^verbatim>\<open>HRTIMER_RESTART\<close>. \<open>None\<close> means that no tick can happen.
\<close>

definition timer_tx_expire :: "uart \<Rightarrow> uart option" where
  "timer_tx_expire s =
     (if hrtimer_active (timer_tx s)
      then (case handle_tx s of
              (r, s') \<Rightarrow>
                Some (s'\<lparr>timer_tx := (timer_tx s')\<lparr>active := (r = HRTIMER_RESTART)\<rparr>\<rparr>))
      else None)"

text \<open>Runs of ticks: the state after \<open>n\<close> TX ticks, the level of the TX pin after each of
  them, and the state after RX ticks that sample the given levels.\<close>

fun tx_ticks :: "nat \<Rightarrow> uart \<Rightarrow> uart" where
  "tx_ticks 0 s = s"
| "tx_ticks (Suc n) s = tx_ticks n (snd (handle_tx s))"

fun tx_levels :: "nat \<Rightarrow> uart \<Rightarrow> c_int list" where
  "tx_levels 0 s = []"
| "tx_levels (Suc n) s =
     gpio_tx_value (snd (handle_tx s)) # tx_levels n (snd (handle_tx s))"

fun rx_ticks :: "c_int list \<Rightarrow> uart \<Rightarrow> uart" where
  "rx_ticks [] s = s"
| "rx_ticks (v # vs) s = rx_ticks vs (snd (handle_rx v s))"

text \<open>Sequences of queue operations, and repeated dequeueing.\<close>

datatype queue_op = Enqueue "byte list" | Dequeue | Initialize

fun apply_queue_op :: "queue_op \<Rightarrow> queue \<Rightarrow> queue" where
  "apply_queue_op (Enqueue string) q = snd (enqueue_string q string)"
| "apply_queue_op Dequeue q =
     (case dequeue_character q of None \<Rightarrow> q | Some (c, q') \<Rightarrow> q')"
| "apply_queue_op Initialize q = initialize_queue q"

fun apply_queue_ops :: "queue_op list \<Rightarrow> queue \<Rightarrow> queue" where
  "apply_queue_ops [] q = q"
| "apply_queue_ops (x # xs) q = apply_queue_ops xs (apply_queue_op x q)"

fun dequeue_n :: "nat \<Rightarrow> queue \<Rightarrow> byte list" where
  "dequeue_n 0 q = []"
| "dequeue_n (Suc n) q =
     (case dequeue_character q of
        None \<Rightarrow> []
      | Some (c, q') \<Rightarrow> c # dequeue_n n q')"

text \<open>Concrete states, reached from the initial one through the driver's own functions.\<close>

definition example_tty :: tty_struct where
  "example_tty = \<lparr>tty_id = 1, port = Some 1\<rparr>"

definition other_tty :: tty_struct where
  "other_tty = \<lparr>tty_id = 2, port = Some 2\<rparr>"

definition opened_uart :: uart where
  "opened_uart =
     (snd (raspberry_soft_uart_open example_tty (initial_uart 256)))
       \<lparr>period := 104166, half_period := 52083\<rparr>"

definition armed_uart :: uart where
  "armed_uart = handle_rx_start opened_uart"

definition receiving_uart :: uart where
  "receiving_uart = rx_ticks [0, 1, 0] armed_uart"

definition last_stop_uart :: uart where
  "last_stop_uart =
     tx_ticks 9 (snd (raspberry_soft_uart_send_string [0x55] opened_uart))"

text \<open>
  The register update of one RX data tick (set or clear bit 8, then shift right), named so
  that proofs can treat it as a unit; and the condition under which \<^verbatim>\<open>receive_character\<close>
  has somewhere to put the character.
\<close>

definition rx_shift :: "c_int \<Rightarrow> 32 word \<Rightarrow> 32 word" where
  "rx_shift v c = drop_bit 1 (if v = 0 then c AND 0xfeff else c OR 0x0100)"

definition sink_attached :: "uart \<Rightarrow> bool" where
  "sink_attached s =
     (rx_callback s \<noteq> None \<or>
      (case current_tty s of None \<Rightarrow> False | Some tty \<Rightarrow> port tty \<noteq> None))"

text \<open>
  The value the spec gives to a sequence of samples received least significant bit first:
  the sum of \<open>sample\<^sub>i * 2\<^sup>i\<close>.
\<close>

definition lsb_first_value :: "bool list \<Rightarrow> nat" where
  "lsb_first_value samples = (\<Sum>i<length samples. of_bool (samples ! i) * 2 ^ i)"

definition parity_uart :: uart where
  "parity_uart = apply_setters [Set_stop_bits 1, Set_parity 1 0 0] opened_uart"

definition forgiving_uart :: uart where
  "forgiving_uart = apply_setters [Set_stop_bits 1, Set_parity 1 0 1] opened_uart"

text \<open>Start slot, the data bits of 0x55 least significant first, and a parity bit that is
  wrong for even parity.\<close>

definition bad_parity_frame :: "c_int list" where
  "bad_parity_frame = [0, 1, 0, 1, 0, 1, 0, 1, 0, 1]"

definition sample_bits_0x55 :: "bool list" where
  "sample_bits_0x55 = [True, False, True, False, True, False, True, False]"

definition loopback_uart :: uart where
  "loopback_uart = snd (raspberry_soft_uart_send_string [0x55] parity_uart)"

definition one_queued_uart :: uart where
  "one_queued_uart = snd (raspberry_soft_uart_send_string [0x01] opened_uart)"

section \<open>Frame layout\<close>

lemma layout_consistent_recalc_indices: "layout_consistent (recalc_indices s)"
  by (simp add: layout_consistent_def recalc_indices_def)

lemma layout_consistent_apply_setter: "layout_consistent (apply_setter c s)"
  by (cases c)
     (simp_all add: raspberry_soft_uart_set_stop_bits_def raspberry_soft_uart_set_parity_def
        layout_consistent_recalc_indices)

lemma layout_consistent_apply_setters:
  "layout_consistent s \<Longrightarrow> layout_consistent (apply_setters cs s)"
  by (induction cs arbitrary: s) (simp_all add: layout_consistent_apply_setter)

lemma layout_consistent_initial: "layout_consistent (initial_uart cap)"
  by (simp add: layout_consistent_def initial_uart_def)

text \<open>
  C7. The layout variables agree with the flags after any sequence of setter calls made on
  the initial state, after any non-empty sequence made on an arbitrary state, and after each
  single setter: the parity slot is 8 with parity and -1 without, the final stop slot is
  \<open>8 + stop_bits\<close> with parity and \<open>7 + stop_bits\<close> without.
\<close>

theorem setters_keep_layout_consistent:
  "layout_consistent (apply_setters cs (initial_uart cap)) \<and>
   (cs \<noteq> [] \<longrightarrow> layout_consistent (apply_setters cs s)) \<and>
   layout_consistent (snd (raspberry_soft_uart_set_stop_bits n s)) \<and>
   layout_consistent (snd (raspberry_soft_uart_set_parity en po ign s))"
proof (intro conjI impI)
  show "layout_consistent (apply_setters cs (initial_uart cap))"
    by (rule layout_consistent_apply_setters [OF layout_consistent_initial])
  show "layout_consistent (apply_setters cs s)" if "cs \<noteq> []"
  proof (cases cs)
    case Nil
    with that show ?thesis by simp
  next
    case (Cons c cs')
    then show ?thesis
      by (simp add: layout_consistent_apply_setters layout_consistent_apply_setter)
  qed
  show "layout_consistent (snd (raspberry_soft_uart_set_stop_bits n s))"
    using layout_consistent_apply_setter [of "Set_stop_bits n" s] by simp
  show "layout_consistent (snd (raspberry_soft_uart_set_parity en po ign s))"
    using layout_consistent_apply_setter [of "Set_parity en po ign" s] by simp
qed

theorem setters_keep_layout_consistent_witness:
  "[Set_parity 1 0 0, Set_stop_bits 2] \<noteq> [] \<and>
   layout_consistent (apply_setters [Set_parity 1 0 0, Set_stop_bits 2] opened_uart) \<and>
   parity_index (apply_setters [Set_parity 1 0 0, Set_stop_bits 2] opened_uart) = 8 \<and>
   final_stop_bit_index (apply_setters [Set_parity 1 0 0, Set_stop_bits 2] opened_uart) = 10"
  using setters_keep_layout_consistent
          [of "[Set_parity 1 0 0, Set_stop_bits 2]" 256 opened_uart 1 1 0 0]
  by (simp add: raspberry_soft_uart_set_stop_bits_def raspberry_soft_uart_set_parity_def
      recalc_indices_def)

section \<open>Session\<close>

lemma open_while_open:
  "current_tty s \<noteq> None \<Longrightarrow>
     raspberry_soft_uart_open tty s = (0, s\<lparr>rx_bit_index := - 1\<rparr>)"
  by (auto simp: raspberry_soft_uart_open_def)

text \<open>
  C4. A second \<^verbatim>\<open>open\<close> while a session is open returns 0 and keeps the tty and the
  queue, but it has already set \<^verbatim>\<open>rx_bit_index\<close> to -1: in a state that is two data bits
  into a frame, the RX frame state is changed by the failed call.
\<close>

theorem second_open_resets_rx_cursor:
  "current_tty receiving_uart = Some example_tty \<and>
   rx_bit_index receiving_uart = 2 \<and>
   fst (raspberry_soft_uart_open other_tty receiving_uart) = 0 \<and>
   rx_bit_index (snd (raspberry_soft_uart_open other_tty receiving_uart)) = - 1 \<and>
   snd (raspberry_soft_uart_open other_tty receiving_uart) \<noteq> receiving_uart \<and>
   current_tty (snd (raspberry_soft_uart_open other_tty receiving_uart)) = Some example_tty \<and>
   queue_tx (snd (raspberry_soft_uart_open other_tty receiving_uart)) = queue_tx receiving_uart"
  by (simp add: receiving_uart_def armed_uart_def opened_uart_def raspberry_soft_uart_open_def
      handle_rx_start_def handle_rx_def initial_uart_def word_sle_eq word_sless_alt Let_def
      initialize_queue_def example_tty_def other_tty_def)

section \<open>Arming and disarming the TX timer\<close>

text \<open>
  C10. Whatever the string, the queue and the session, \<^verbatim>\<open>send\<close> on an inactive TX timer
  starts it with the current period; the count of accepted bytes plays no part.
\<close>

theorem send_arms_tx_timer:
  "\<not> hrtimer_active (timer_tx s) \<Longrightarrow>
     timer_tx (snd (raspberry_soft_uart_send_string string s))
       = hrtimer_start (timer_tx s) (period s) \<and>
     hrtimer_active (timer_tx (snd (raspberry_soft_uart_send_string string s)))"
  by (simp add: raspberry_soft_uart_send_string_def hrtimer_active_def hrtimer_start_def
      split: prod.splits)

theorem send_arms_tx_timer_witness:
  "\<not> hrtimer_active (timer_tx (initial_uart 0)) \<and>
   current_tty (initial_uart 0) = None \<and>
   fst (raspberry_soft_uart_send_string [0x41] (initial_uart 0)) = 0 \<and>
   hrtimer_active (timer_tx (snd (raspberry_soft_uart_send_string [0x41] (initial_uart 0)))) \<and>
   hrtimer_active (timer_tx (snd (raspberry_soft_uart_send_string [] (initial_uart 0))))"
  using send_arms_tx_timer [of "initial_uart 0" "[0x41]"]
    send_arms_tx_timer [of "initial_uart 0" "[]"]
  by (simp add: initial_uart_def hrtimer_active_def raspberry_soft_uart_send_string_def
      enqueue_string_def get_queue_room_def)

lemma final_slot_guards:
  assumes "layout_consistent s" and "stop_bits s = 1 \<or> stop_bits s = 2"
  shows "final_stop_bit_index s \<noteq> - 1 \<and>
         \<not> (0 \<le>s final_stop_bit_index s \<and> final_stop_bit_index s <s 8) \<and>
         final_stop_bit_index s \<noteq> parity_index s \<and>
         final_stop_bit_index s \<le>s final_stop_bit_index s"
  using assms by (auto simp: layout_consistent_def word_sle_eq word_sless_alt split: if_splits)

text \<open>
  C6. With the queue empty, a TX tick in the idle state and a TX tick at the final stop slot
  both return \<^verbatim>\<open>HRTIMER_NORESTART\<close> (the latter after driving the line high and going idle).
  If the timer was queued, it fires this once, cannot fire again, and can fire again after a
  call of \<^verbatim>\<open>send\<close>.
\<close>

theorem tx_disarms_when_queue_empty:
  assumes "get_queue_size (queue_tx s) = 0"
  shows "(tx_bit_index s = - 1 \<longrightarrow> handle_tx s = (HRTIMER_NORESTART, s)) \<and>
         (layout_consistent s \<and> (stop_bits s = 1 \<or> stop_bits s = 2) \<and>
          tx_bit_index s = final_stop_bit_index s \<longrightarrow>
            fst (handle_tx s) = HRTIMER_NORESTART \<and>
            gpio_tx_value (snd (handle_tx s)) = 1 \<and>
            tx_bit_index (snd (handle_tx s)) = - 1 \<and>
            timer_tx (snd (handle_tx s)) = timer_tx s) \<and>
         ((tx_bit_index s = - 1 \<or>
           layout_consistent s \<and> (stop_bits s = 1 \<or> stop_bits s = 2) \<and>
           tx_bit_index s = final_stop_bit_index s) \<and> hrtimer_active (timer_tx s) \<longrightarrow>
            (\<exists>s'. timer_tx_expire s = Some s' \<and> timer_tx_expire s' = None \<and>
                  timer_tx_expire (snd (raspberry_soft_uart_send_string string s')) \<noteq> None))"
proof (intro conjI impI)
  from assms have empty: "dequeue_character (queue_tx s) = None"
    by (simp add: get_queue_size_def dequeue_character_def)
  show idle: "handle_tx s = (HRTIMER_NORESTART, s)" if "tx_bit_index s = - 1"
    using that empty by (simp add: handle_tx_def)
  {
    assume fin: "layout_consistent s \<and> (stop_bits s = 1 \<or> stop_bits s = 2) \<and>
          tx_bit_index s = final_stop_bit_index s"
    then have slot: "tx_bit_index s \<noteq> - 1"
      "\<not> (0 \<le>s tx_bit_index s \<and> tx_bit_index s <s 8)"
      "tx_bit_index s \<noteq> parity_index s"
      "tx_bit_index s \<le>s final_stop_bit_index s"
      using final_slot_guards [of s] by simp_all
    have "handle_tx s = (HRTIMER_NORESTART,
            s\<lparr>gpio_tx_value := 1, tx_character := 0, tx_bit_index := - 1, tx_parity := 0\<rparr>)"
      using slot fin assms by (auto simp: handle_tx_def)
  } note final = this
  show "fst (handle_tx s) = HRTIMER_NORESTART"
    if "layout_consistent s \<and> (stop_bits s = 1 \<or> stop_bits s = 2) \<and>
          tx_bit_index s = final_stop_bit_index s"
    using final [OF that] by simp
  show "gpio_tx_value (snd (handle_tx s)) = 1"
    if "layout_consistent s \<and> (stop_bits s = 1 \<or> stop_bits s = 2) \<and>
          tx_bit_index s = final_stop_bit_index s"
    using final [OF that] by simp
  show "tx_bit_index (snd (handle_tx s)) = - 1"
    if "layout_consistent s \<and> (stop_bits s = 1 \<or> stop_bits s = 2) \<and>
          tx_bit_index s = final_stop_bit_index s"
    using final [OF that] by simp
  show "timer_tx (snd (handle_tx s)) = timer_tx s"
    if "layout_consistent s \<and> (stop_bits s = 1 \<or> stop_bits s = 2) \<and>
          tx_bit_index s = final_stop_bit_index s"
    using final [OF that] by simp
  show "\<exists>s'. timer_tx_expire s = Some s' \<and> timer_tx_expire s' = None \<and>
                  timer_tx_expire (snd (raspberry_soft_uart_send_string string s')) \<noteq> None"
    if "(tx_bit_index s = - 1 \<or>
           layout_consistent s \<and> (stop_bits s = 1 \<or> stop_bits s = 2) \<and>
           tx_bit_index s = final_stop_bit_index s) \<and> hrtimer_active (timer_tx s)"
  proof -
    from that have act: "hrtimer_active (timer_tx s)" by simp
    from that idle final obtain s1 where h: "handle_tx s = (HRTIMER_NORESTART, s1)"
      by blast
    have "timer_tx_expire s = Some (s1\<lparr>timer_tx := (timer_tx s1)\<lparr>active := False\<rparr>\<rparr>)"
      using act h by (simp add: timer_tx_expire_def)
    moreover have "timer_tx_expire (s1\<lparr>timer_tx := (timer_tx s1)\<lparr>active := False\<rparr>\<rparr>) = None"
      by (simp add: timer_tx_expire_def hrtimer_active_def)
    moreover have "timer_tx_expire (snd (raspberry_soft_uart_send_string string
                      (s1\<lparr>timer_tx := (timer_tx s1)\<lparr>active := False\<rparr>\<rparr>))) \<noteq> None"
      by (simp add: timer_tx_expire_def hrtimer_active_def raspberry_soft_uart_send_string_def
          hrtimer_start_def split: prod.splits)
    ultimately show ?thesis by blast
  qed
qed

lemma tx_ticks_numeral:
  "tx_ticks (numeral k) s = tx_ticks (pred_numeral k) (snd (handle_tx s))"
  by (simp add: numeral_eq_Suc)

lemma tx_ticks_one: "tx_ticks 1 s = snd (handle_tx s)"
  by simp

lemma last_stop_uart_fields:
  "get_queue_size (queue_tx last_stop_uart) = 0 \<and> layout_consistent last_stop_uart \<and>
   stop_bits last_stop_uart = 1 \<and> tx_bit_index last_stop_uart = 8 \<and>
   final_stop_bit_index last_stop_uart = 8 \<and> hrtimer_active (timer_tx last_stop_uart)"
  by (simp add: last_stop_uart_def opened_uart_def raspberry_soft_uart_open_def
      raspberry_soft_uart_send_string_def initial_uart_def initialize_queue_def
      enqueue_string_def get_queue_room_def get_queue_size_def dequeue_character_def
      hrtimer_active_def hrtimer_start_def hrtimer_forward_def handle_tx_def
      layout_consistent_def word_sle_eq word_sless_alt tx_ticks_numeral tx_ticks_one Let_def)

theorem tx_disarms_when_queue_empty_witness:
  "get_queue_size (queue_tx last_stop_uart) = 0 \<and> layout_consistent last_stop_uart \<and>
   stop_bits last_stop_uart = 1 \<and>
   tx_bit_index last_stop_uart = final_stop_bit_index last_stop_uart \<and>
   hrtimer_active (timer_tx last_stop_uart) \<and>
   fst (handle_tx last_stop_uart) = HRTIMER_NORESTART \<and>
   tx_bit_index (snd (handle_tx last_stop_uart)) = - 1"
  using tx_disarms_when_queue_empty [of last_stop_uart "[]"] last_stop_uart_fields
  by simp

section \<open>One tick at a time\<close>

text \<open>Each branch of the two callbacks as an equation, for stepping through a frame.\<close>

lemma tx_data_bit: "1 AND drop_bit i (ucast (b :: byte) :: 32 word) = of_bool (bit b i)"
  by (simp add: one_and_eq mod_2_eq_odd bit_iff_odd_drop_bit[symmetric] bit_ucast_iff)
     (auto dest: bit_imp_le_length)

lemma handle_rx_start_slot:
  "rx_bit_index s = - 1 \<Longrightarrow>
     handle_rx v s =
       (HRTIMER_RESTART,
        s\<lparr>rx_bit_index := 0, rx_character := 0, rx_parity := parity_init s,
          rx_parity_ok := True, timer_rx := hrtimer_forward (timer_rx s) (period s)\<rparr>)"
  by (simp add: handle_rx_def)

lemma handle_rx_data_slot:
  "rx_bit_index s \<noteq> - 1 \<Longrightarrow> 0 \<le>s rx_bit_index s \<Longrightarrow> rx_bit_index s <s 8 \<Longrightarrow>
     handle_rx v s =
       (HRTIMER_RESTART,
        s\<lparr>rx_parity := rx_parity s XOR v, rx_bit_index := rx_bit_index s + 1,
          rx_character := rx_shift v (rx_character s),
          timer_rx := hrtimer_forward (timer_rx s) (period s)\<rparr>)"
  by (simp add: handle_rx_def rx_shift_def)

lemma handle_rx_parity_slot:
  "rx_bit_index s \<noteq> - 1 \<Longrightarrow> \<not> (0 \<le>s rx_bit_index s \<and> rx_bit_index s <s 8) \<Longrightarrow>
   rx_bit_index s = parity_index s \<Longrightarrow>
     handle_rx v s =
       (HRTIMER_RESTART,
        s\<lparr>rx_parity_ok := (v = rx_parity s \<and> rx_parity_ok s),
          rx_bit_index := rx_bit_index s + 1,
          timer_rx := hrtimer_forward (timer_rx s) (period s)\<rparr>)"
  by (auto simp: handle_rx_def)

lemma handle_rx_extra_stop_slot:
  "rx_bit_index s \<noteq> - 1 \<Longrightarrow> \<not> (0 \<le>s rx_bit_index s \<and> rx_bit_index s <s 8) \<Longrightarrow>
   rx_bit_index s \<noteq> parity_index s \<Longrightarrow> rx_bit_index s <s final_stop_bit_index s \<Longrightarrow>
     handle_rx v s =
       (HRTIMER_RESTART,
        s\<lparr>rx_bit_index := rx_bit_index s + 1,
          timer_rx := hrtimer_forward (timer_rx s) (period s)\<rparr>)"
  by (auto simp: handle_rx_def)

lemma handle_rx_final_stop_slot:
  "rx_bit_index s \<noteq> - 1 \<Longrightarrow> \<not> (0 \<le>s rx_bit_index s \<and> rx_bit_index s <s 8) \<Longrightarrow>
   rx_bit_index s \<noteq> parity_index s \<Longrightarrow> \<not> rx_bit_index s <s final_stop_bit_index s \<Longrightarrow>
   rx_bit_index s = final_stop_bit_index s \<Longrightarrow>
     handle_rx v s =
       (HRTIMER_NORESTART,
        (if rx_parity_ok s \<or> ignore_parity_errors s \<noteq> 0
         then receive_character (ucast (rx_character s)) s
         else s)\<lparr>rx_bit_index := - 1\<rparr>)"
  by (auto simp: handle_rx_def)

lemmas rx_slots = handle_rx_start_slot handle_rx_data_slot handle_rx_parity_slot
  handle_rx_extra_stop_slot handle_rx_final_stop_slot

lemma handle_tx_idle_slot:
  "tx_bit_index s = - 1 \<Longrightarrow> items (queue_tx s) = c # rest \<Longrightarrow>
     handle_tx s =
       (HRTIMER_RESTART,
        s\<lparr>queue_tx := (queue_tx s)\<lparr>items := rest\<rparr>, tx_character := c, gpio_tx_value := 0,
          tx_bit_index := 0, tx_parity := parity_init s,
          timer_tx := hrtimer_forward (timer_tx s) (period s)\<rparr>)"
  by (simp add: handle_tx_def dequeue_character_def)

lemma handle_tx_data_slot:
  "tx_bit_index s \<noteq> - 1 \<Longrightarrow> 0 \<le>s tx_bit_index s \<Longrightarrow> tx_bit_index s <s 8 \<Longrightarrow>
     handle_tx s =
       (HRTIMER_RESTART,
        s\<lparr>gpio_tx_value := of_bool (bit (tx_character s) (unat (tx_bit_index s))),
          tx_parity := tx_parity s XOR of_bool (bit (tx_character s) (unat (tx_bit_index s))),
          tx_bit_index := tx_bit_index s + 1,
          timer_tx := hrtimer_forward (timer_tx s) (period s)\<rparr>)"
  by (simp add: handle_tx_def tx_data_bit)

lemma handle_tx_parity_slot:
  "tx_bit_index s \<noteq> - 1 \<Longrightarrow> \<not> (0 \<le>s tx_bit_index s \<and> tx_bit_index s <s 8) \<Longrightarrow>
   tx_bit_index s = parity_index s \<Longrightarrow>
     handle_tx s =
       (HRTIMER_RESTART,
        s\<lparr>gpio_tx_value := tx_parity s, tx_bit_index := tx_bit_index s + 1,
          timer_tx := hrtimer_forward (timer_tx s) (period s)\<rparr>)"
  by (auto simp: handle_tx_def)

lemma handle_tx_stop_slot:
  "tx_bit_index s \<noteq> - 1 \<Longrightarrow> \<not> (0 \<le>s tx_bit_index s \<and> tx_bit_index s <s 8) \<Longrightarrow>
   tx_bit_index s \<noteq> parity_index s \<Longrightarrow> tx_bit_index s \<le>s final_stop_bit_index s \<Longrightarrow>
   tx_bit_index s \<noteq> final_stop_bit_index s \<Longrightarrow>
     handle_tx s =
       (HRTIMER_RESTART,
        s\<lparr>gpio_tx_value := 1, tx_bit_index := tx_bit_index s + 1,
          timer_tx := hrtimer_forward (timer_tx s) (period s)\<rparr>)"
  by (auto simp: handle_tx_def)

lemma handle_tx_final_stop_slot:
  "tx_bit_index s \<noteq> - 1 \<Longrightarrow> \<not> (0 \<le>s tx_bit_index s \<and> tx_bit_index s <s 8) \<Longrightarrow>
   tx_bit_index s \<noteq> parity_index s \<Longrightarrow> tx_bit_index s = final_stop_bit_index s \<Longrightarrow>
     snd (handle_tx s) =
       s\<lparr>gpio_tx_value := 1, tx_character := 0, tx_bit_index := - 1, tx_parity := 0,
         timer_tx := (if 0 < get_queue_size (queue_tx s)
                      then hrtimer_forward (timer_tx s) (period s) else timer_tx s)\<rparr>"
  by (auto simp: handle_tx_def)

lemmas tx_slots = handle_tx_idle_slot handle_tx_data_slot handle_tx_parity_slot
  handle_tx_stop_slot handle_tx_final_stop_slot

lemma tx_levels_numeral:
  "tx_levels (numeral k) s =
     gpio_tx_value (snd (handle_tx s)) # tx_levels (pred_numeral k) (snd (handle_tx s))"
  by (simp add: numeral_eq_Suc)

section \<open>Whole frames\<close>

lemma list_of_length_9:
  assumes "length vs = 9"
  obtains a0 a1 a2 a3 a4 a5 a6 a7 a8 where "vs = [a0,a1,a2,a3,a4,a5,a6,a7,a8]"
proof -
  from assms have "length vs = Suc (Suc (Suc (Suc (Suc (Suc (Suc (Suc (Suc 0))))))))"
    by simp
  then show ?thesis
    using that by (auto simp: length_Suc_conv)
qed

lemma list_of_length_10:
  assumes "length vs = 10"
  obtains a0 a1 a2 a3 a4 a5 a6 a7 a8 a9 where "vs = [a0,a1,a2,a3,a4,a5,a6,a7,a8,a9]"
proof -
  from assms obtain a0 ws where vs: "vs = a0 # ws" and "length ws = 9"
    by (cases vs) simp_all
  from this(2) obtain a1 a2 a3 a4 a5 a6 a7 a8 a9 where "ws = [a1,a2,a3,a4,a5,a6,a7,a8,a9]"
    by (rule list_of_length_9)
  with vs that show ?thesis by simp
qed

lemma list_of_length_11:
  assumes "length vs = 11"
  obtains a0 a1 a2 a3 a4 a5 a6 a7 a8 a9 a10
    where "vs = [a0,a1,a2,a3,a4,a5,a6,a7,a8,a9,a10]"
proof -
  from assms obtain a0 ws where vs: "vs = a0 # ws" and "length ws = 10"
    by (cases vs) simp_all
  from this(2) obtain a1 a2 a3 a4 a5 a6 a7 a8 a9 a10
    where "ws = [a1,a2,a3,a4,a5,a6,a7,a8,a9,a10]"
    by (rule list_of_length_10)
  with vs that show ?thesis by simp
qed

lemma list_of_length_8:
  assumes "length vs = 8"
  obtains a0 a1 a2 a3 a4 a5 a6 a7 where "vs = [a0,a1,a2,a3,a4,a5,a6,a7]"
proof -
  from assms have "length vs = Suc (Suc (Suc (Suc (Suc (Suc (Suc (Suc 0)))))))"
    by simp
  then show ?thesis
    using that by (auto simp: length_Suc_conv)
qed

lemma layout_cases:
  assumes "layout_consistent s" and "stop_bits s = 1 \<or> stop_bits s = 2"
  obtains
    (none_1) "parity_en s = 0" "parity_index s = - 1" "final_stop_bit_index s = 8"
      "stop_bits s = 1"
  | (none_2) "parity_en s = 0" "parity_index s = - 1" "final_stop_bit_index s = 9"
      "stop_bits s = 2"
  | (parity_1) "parity_en s \<noteq> 0" "parity_index s = 8" "final_stop_bit_index s = 9"
      "stop_bits s = 1"
  | (parity_2) "parity_en s \<noteq> 0" "parity_index s = 8" "final_stop_bit_index s = 10"
      "stop_bits s = 2"
  using assms by (auto simp: layout_consistent_def split: if_splits)

text \<open>The state at the final stop slot, after the start tick and the ticks of the data,
  parity and extra stop slots have sampled \<open>vs\<close>.\<close>

lemma rx_frame_final_slot:
  assumes "layout_consistent s" and "stop_bits s = 1 \<or> stop_bits s = 2"
    and "rx_bit_index s = - 1"
    and "length vs = unat (final_stop_bit_index s) + 1"
  shows "rx_ticks vs s =
     s\<lparr>rx_parity := foldl (XOR) (parity_init s) (take 8 (tl vs)),
       rx_character := foldl (\<lambda>c v. rx_shift v c) 0 (take 8 (tl vs)),
       rx_parity_ok :=
         (parity_en s = 0 \<or> vs ! 9 = foldl (XOR) (parity_init s) (take 8 (tl vs))),
       rx_bit_index := final_stop_bit_index s,
       timer_rx := (timer_rx s)
         \<lparr>calls := calls (timer_rx s) @ replicate (length vs) (Forward (period s))\<rparr>\<rparr>"
  using assms(1,2)
proof (cases rule: layout_cases)
  case none_1
  with assms(4) have "length vs = 9" by simp
  then obtain a0 a1 a2 a3 a4 a5 a6 a7 a8 where "vs = [a0,a1,a2,a3,a4,a5,a6,a7,a8]"
    by (rule list_of_length_9)
  with none_1 assms(3) show ?thesis
    by (simp add: rx_slots word_sle_eq word_sless_alt hrtimer_forward_def;
        rule uart.equality; simp add: eval_nat_numeral)
next
  case none_2
  with assms(4) have "length vs = 10" by simp
  then obtain a0 a1 a2 a3 a4 a5 a6 a7 a8 a9 where "vs = [a0,a1,a2,a3,a4,a5,a6,a7,a8,a9]"
    by (rule list_of_length_10)
  with none_2 assms(3) show ?thesis
    by (simp add: rx_slots word_sle_eq word_sless_alt hrtimer_forward_def;
        rule uart.equality; simp add: eval_nat_numeral)
next
  case parity_1
  with assms(4) have "length vs = 10" by simp
  then obtain a0 a1 a2 a3 a4 a5 a6 a7 a8 a9 where "vs = [a0,a1,a2,a3,a4,a5,a6,a7,a8,a9]"
    by (rule list_of_length_10)
  with parity_1 assms(3) show ?thesis
    by (simp add: rx_slots word_sle_eq word_sless_alt hrtimer_forward_def;
        rule uart.equality; simp add: eval_nat_numeral)
next
  case parity_2
  with assms(4) have "length vs = 11" by simp
  then obtain a0 a1 a2 a3 a4 a5 a6 a7 a8 a9 a10
    where "vs = [a0,a1,a2,a3,a4,a5,a6,a7,a8,a9,a10]"
    by (rule list_of_length_11)
  with parity_2 assms(3) show ?thesis
    by (simp add: rx_slots word_sle_eq word_sless_alt hrtimer_forward_def;
        rule uart.equality; simp add: eval_nat_numeral)
qed

lemma lsb_first_bits_explicit:
  "map (bit b) [0..<8] = [bit b 0, bit b 1, bit b 2, bit b 3, bit b 4, bit b 5, bit b 6, bit b 7]"
  by (simp add: upt_conv_Cons eval_nat_numeral)

lemma replicate_two: "replicate 2 x = [x, x]"
  by (simp add: numeral_2_eq_2)

lemma tx_frame_levels:
  assumes "layout_consistent s" and "stop_bits s = 1 \<or> stop_bits s = 2"
    and "tx_bit_index s = - 1" and "items (queue_tx s) = b # rest"
  shows "tx_levels (unat (final_stop_bit_index s) + 2) s =
     0 # map of_bool (map (bit b) [0..<8]) @
     (if parity_en s \<noteq> 0
      then [foldl (XOR) (parity_init s) (map of_bool (map (bit b) [0..<8]))] else []) @
     replicate (unat (stop_bits s)) 1"
  using assms(1,2)
proof (cases rule: layout_cases)
  case none_1
  with assms(3,4) show ?thesis
    by (simp add: tx_levels_numeral tx_slots word_sle_eq word_sless_alt
        lsb_first_bits_explicit)
next
  case none_2
  with assms(3,4) show ?thesis
    by (simp add: tx_levels_numeral tx_slots word_sle_eq word_sless_alt
        lsb_first_bits_explicit replicate_two)
next
  case parity_1
  with assms(3,4) show ?thesis
    by (simp add: tx_levels_numeral tx_slots word_sle_eq word_sless_alt
        lsb_first_bits_explicit)
next
  case parity_2
  with assms(3,4) show ?thesis
    by (simp add: tx_levels_numeral tx_slots word_sle_eq word_sless_alt
        lsb_first_bits_explicit replicate_two)
qed

section \<open>Assembling the received byte\<close>

lemma bit_rx_shift_top: "bit (rx_shift v c) 7 \<longleftrightarrow> v \<noteq> 0"
  by (simp add: rx_shift_def bit_drop_bit_eq bit_or_iff bit_and_iff)

lemma bit_rx_shift_low: "n < 7 \<Longrightarrow> bit (rx_shift v c) n \<longleftrightarrow> bit c (Suc n)"
proof -
  assume "n < 7"
  then consider "n = 0" | "n = 1" | "n = 2" | "n = 3" | "n = 4" | "n = 5" | "n = 6"
    by linarith
  then show ?thesis
    by cases
      (simp_all add: rx_shift_def bit_drop_bit_eq bit_or_iff bit_and_iff,
       simp_all add: eval_nat_numeral)
qed

lemma bit_rx_shift_top_Suc:
  "bit (rx_shift v c) (Suc (Suc (Suc (Suc (Suc (Suc (Suc 0))))))) \<longleftrightarrow> v \<noteq> 0"
  using bit_rx_shift_top [of v c] by (simp add: eval_nat_numeral)

lemma rx_assembled_bits:
  assumes "n < 8"
  shows "bit (foldl (\<lambda>c v. rx_shift v c) c0 [v0, v1, v2, v3, v4, v5, v6, v7]) n
           \<longleftrightarrow> [v0, v1, v2, v3, v4, v5, v6, v7] ! n \<noteq> 0"
proof -
  from assms consider "n = 0" | "n = 1" | "n = 2" | "n = 3" | "n = 4" | "n = 5" | "n = 6"
    | "n = 7"
    by linarith
  then show ?thesis
    by cases (simp_all add: bit_rx_shift_top bit_rx_shift_top_Suc bit_rx_shift_low)
qed


lemma rx_assembled_bits_bool:
  assumes "length samples = 8" and "n < 8"
  shows "bit (foldl (\<lambda>c v. rx_shift v c) c0 (map of_bool samples)) n \<longleftrightarrow> samples ! n"
proof -
  from assms(1) obtain a0 a1 a2 a3 a4 a5 a6 a7 where s: "samples = [a0,a1,a2,a3,a4,a5,a6,a7]"
    by (rule list_of_length_8)
  from assms(2) consider "n = 0" | "n = 1" | "n = 2" | "n = 3" | "n = 4" | "n = 5" | "n = 6"
    | "n = 7"
    by linarith
  then show ?thesis
    using rx_assembled_bits [OF assms(2), of c0 "of_bool a0" "of_bool a1" "of_bool a2"
        "of_bool a3" "of_bool a4" "of_bool a5" "of_bool a6" "of_bool a7"]
    unfolding s by cases simp_all
qed

lemma unat_byte_horner:
  "unat (w :: byte) = horner_sum of_bool 2 (map (bit w) [0..<8])"
proof -
  have "horner_sum of_bool 2 (map (bit (unat w)) [0..<8]) = take_bit 8 (unat w)"
    by (rule horner_sum_bit_eq_take_bit)
  moreover have "unat w < 2 ^ 8"
    using unsigned_less [of w, where ?'a = nat] by simp
  then have "take_bit 8 (unat w) = unat w"
    by (simp add: take_bit_nat_eq_self)
  moreover have "map (bit (unat w)) [0..<8] = map (bit w) [0..<8]"
    by (simp add: bit_unsigned_iff)
  ultimately show ?thesis by simp
qed

lemma rx_assembled_value:
  assumes "length samples = 8"
  shows "unat (ucast (foldl (\<lambda>c v. rx_shift v c) c0 (map of_bool samples)) :: byte)
           = lsb_first_value samples"
proof -
  let ?w = "ucast (foldl (\<lambda>c v. rx_shift v c) c0 (map of_bool samples)) :: byte"
  have "map (bit ?w) [0..<8] = samples"
  proof (rule nth_equalityI)
    show "length (map (bit ?w) [0..<8]) = length samples"
      using assms by simp
    fix i
    assume "i < length (map (bit ?w) [0..<8])"
    then have i: "i < 8" by simp
    then show "map (bit ?w) [0..<8] ! i = samples ! i"
      using rx_assembled_bits_bool [OF assms i, of c0] by (simp add: bit_ucast_iff)
  qed
  then have "unat ?w = horner_sum of_bool 2 samples"
    using unat_byte_horner [of ?w] by simp
  then show ?thesis
    by (simp add: lsb_first_value_def horner_sum_eq_sum atLeast0LessThan)
qed

lemma rx_assembled_byte:
  "ucast (foldl (\<lambda>c v. rx_shift v c) c0 (map of_bool (map (bit b) [0..<8]))) = (b :: byte)"
proof (rule bit_eqI)
  fix n
  show "bit (ucast (foldl (\<lambda>c v. rx_shift v c) c0 (map of_bool (map (bit b) [0..<8]))) :: byte) n
          \<longleftrightarrow> bit b n"
  proof (cases "n < 8")
    case True
    then show ?thesis
      using rx_assembled_bits_bool [of "map (bit b) [0..<8]" n c0]
      by (simp add: bit_ucast_iff)
  next
    case False
    then have "\<not> bit b n"
      using bit_imp_le_length [of b n] by auto
    with False show ?thesis
      by (simp add: bit_ucast_iff)
  qed
qed

section \<open>The end of a received frame\<close>

lemma rx_ticks_append: "rx_ticks (xs @ ys) s = rx_ticks ys (rx_ticks xs s)"
  by (induction xs arbitrary: s) simp_all

lemma receive_character_attached:
  assumes "sink_attached s"
  shows "\<exists>d. receive_character c s = s\<lparr>delivered := delivered s @ [d]\<rparr> \<and> delivery_byte d = c"
proof (cases "rx_callback s")
  case (Some f)
  then have "receive_character c s = s\<lparr>delivered := delivered s @ [To_callback f c]\<rparr>"
    by (simp add: receive_character_def)
  then show ?thesis
    using delivery_byte.simps(1) by blast
next
  case None
  with assms obtain tty q where "current_tty s = Some tty" and "port tty = Some q"
    by (cases "current_tty s") (auto simp: sink_attached_def)
  with None have "receive_character c s = s\<lparr>delivered := delivered s @ [To_tty_port q c]\<rparr>"
    by (simp add: receive_character_def)
  then show ?thesis
    using delivery_byte.simps(2) by blast
qed

lemma rx_final_tick:
  assumes "layout_consistent p" and "stop_bits p = 1 \<or> stop_bits p = 2"
    and "rx_bit_index p = final_stop_bit_index p"
  shows "handle_rx v p =
     (HRTIMER_NORESTART,
      (if rx_parity_ok p \<or> ignore_parity_errors p \<noteq> 0
       then receive_character (ucast (rx_character p)) p
       else p)\<lparr>rx_bit_index := - 1\<rparr>)"
  using final_slot_guards [OF assms(1,2)] assms(3)
  by (intro handle_rx_final_stop_slot) (simp_all add: word_sless_alt)

lemma rx_frame_summary:
  assumes "layout_consistent s" and "stop_bits s = 1 \<or> stop_bits s = 2"
    and "rx_bit_index s = - 1"
    and "length vs = unat (final_stop_bit_index s) + 1"
  defines "p \<equiv> rx_ticks vs s"
  shows "rx_bit_index p = final_stop_bit_index p"
    and "layout_consistent p"
    and "stop_bits p = stop_bits s"
    and "parity_en p = parity_en s"
    and "ignore_parity_errors p = ignore_parity_errors s"
    and "sink_attached p = sink_attached s"
    and "delivered p = delivered s"
    and "rx_character p = foldl (\<lambda>c v. rx_shift v c) 0 (take 8 (tl vs))"
    and "rx_parity_ok p
           = (parity_en s = 0 \<or> vs ! 9 = foldl (XOR) (parity_init s) (take 8 (tl vs)))"
  using assms(1) unfolding p_def rx_frame_final_slot [OF assms(1-4)]
  by (simp_all add: layout_consistent_def sink_attached_def)

text \<open>
  C3. Take a frame received under a consistent layout with one or two stop bits and a sink
  attached, and let \<open>p\<close> be the state at its final stop slot. The tick there returns
  \<^verbatim>\<open>HRTIMER_NORESTART\<close>, leaves the RX timer alone and puts the cursor back to -1. If the
  parity-ok flag is set, or parity is disabled, or parity errors are ignored, it hands the low
  eight bits of the register to the sink; otherwise it changes nothing but the cursor.
\<close>

theorem final_stop_slot_delivery:
  assumes "layout_consistent s" and "stop_bits s = 1 \<or> stop_bits s = 2"
    and "rx_bit_index s = - 1"
    and "length vs = unat (final_stop_bit_index s) + 1"
    and "sink_attached s"
  defines "p \<equiv> rx_ticks vs s"
  shows "rx_bit_index p = final_stop_bit_index p \<and>
         fst (handle_rx v p) = HRTIMER_NORESTART \<and>
         rx_bit_index (snd (handle_rx v p)) = - 1 \<and>
         timer_rx (snd (handle_rx v p)) = timer_rx p \<and>
         (if rx_parity_ok p \<or> parity_en p = 0 \<or> ignore_parity_errors p \<noteq> 0
          then \<exists>d. snd (handle_rx v p) = p\<lparr>delivered := delivered p @ [d], rx_bit_index := - 1\<rparr>
                 \<and> delivery_byte d = ucast (rx_character p)
          else snd (handle_rx v p) = p\<lparr>rx_bit_index := - 1\<rparr>)"
proof -
  note sm = rx_frame_summary [OF assms(1-4), folded p_def]
  have tick: "handle_rx v p =
     (HRTIMER_NORESTART,
      (if rx_parity_ok p \<or> ignore_parity_errors p \<noteq> 0
       then receive_character (ucast (rx_character p)) p
       else p)\<lparr>rx_bit_index := - 1\<rparr>)"
    using sm(1,2,3) assms(2) by (intro rx_final_tick) simp_all
  have ok: "rx_parity_ok p" if "parity_en p = 0"
    using that sm(4,9) by simp
  from sm(6) assms(5) have "sink_attached p" by simp
  then obtain d where d: "receive_character (ucast (rx_character p)) p
      = p\<lparr>delivered := delivered p @ [d]\<rparr>" "delivery_byte d = ucast (rx_character p)"
    using receive_character_attached by blast
  show ?thesis
  proof (cases "rx_parity_ok p \<or> ignore_parity_errors p \<noteq> 0")
    case True
    with tick d sm(1) show ?thesis by auto
  next
    case False
    with ok have "\<not> (rx_parity_ok p \<or> parity_en p = 0 \<or> ignore_parity_errors p \<noteq> 0)"
      by blast
    with False tick sm(1) show ?thesis by simp
  qed
qed

lemma opened_uart_fields:
  "rx_bit_index opened_uart = - 1" "tx_bit_index opened_uart = - 1"
  "current_tty opened_uart = Some example_tty" "rx_callback opened_uart = None"
  "delivered opened_uart = []" "stop_bits opened_uart = 1" "parity_en opened_uart = 0"
  "parity_init opened_uart = 0" "ignore_parity_errors opened_uart = 0"
  "parity_index opened_uart = - 1" "final_stop_bit_index opened_uart = 8"
  "items (queue_tx opened_uart) = []" "capacity (queue_tx opened_uart) = 256"
  by (simp_all add: opened_uart_def raspberry_soft_uart_open_def initial_uart_def
      initialize_queue_def)

lemma parity_uart_eq:
  "parity_uart = opened_uart\<lparr>stop_bits := 1, parity_en := 1, parity_init := 0,
     ignore_parity_errors := 0, parity_index := 8, final_stop_bit_index := 9\<rparr>"
  by (rule uart.equality)
     (simp_all add: parity_uart_def raspberry_soft_uart_set_stop_bits_def
      raspberry_soft_uart_set_parity_def recalc_indices_def opened_uart_fields)

lemma forgiving_uart_eq:
  "forgiving_uart = opened_uart\<lparr>stop_bits := 1, parity_en := 1, parity_init := 0,
     ignore_parity_errors := 1, parity_index := 8, final_stop_bit_index := 9\<rparr>"
  by (rule uart.equality)
     (simp_all add: forgiving_uart_def raspberry_soft_uart_set_stop_bits_def
      raspberry_soft_uart_set_parity_def recalc_indices_def opened_uart_fields)

lemma bad_parity_frame_fields:
  "length bad_parity_frame = 10" "bad_parity_frame ! 9 = 1"
  "take 8 (tl bad_parity_frame) = [1, 0, 1, 0, 1, 0, 1, 0]"
  by (simp_all add: bad_parity_frame_def)

theorem final_stop_slot_delivery_witness:
  "layout_consistent parity_uart \<and> stop_bits parity_uart = 1 \<and>
   rx_bit_index parity_uart = - 1 \<and>
   length bad_parity_frame = unat (final_stop_bit_index parity_uart) + 1 \<and>
   sink_attached parity_uart \<and>
   \<not> rx_parity_ok (rx_ticks bad_parity_frame parity_uart) \<and>
   delivered (snd (handle_rx 1 (rx_ticks bad_parity_frame parity_uart))) = [] \<and>
   ignore_parity_errors forgiving_uart = 1 \<and>
   \<not> rx_parity_ok (rx_ticks bad_parity_frame forgiving_uart) \<and>
   map delivery_byte (delivered (snd (handle_rx 1 (rx_ticks bad_parity_frame forgiving_uart))))
     = [0x55]"
proof -
  have strict: "layout_consistent parity_uart" "stop_bits parity_uart = 1 \<or> stop_bits parity_uart = 2"
    "rx_bit_index parity_uart = - 1"
    "length bad_parity_frame = unat (final_stop_bit_index parity_uart) + 1"
    "sink_attached parity_uart"
    by (simp_all add: parity_uart_eq opened_uart_fields layout_consistent_def sink_attached_def
        example_tty_def bad_parity_frame_fields)
  have lax: "layout_consistent forgiving_uart"
    "stop_bits forgiving_uart = 1 \<or> stop_bits forgiving_uart = 2"
    "rx_bit_index forgiving_uart = - 1"
    "length bad_parity_frame = unat (final_stop_bit_index forgiving_uart) + 1"
    "sink_attached forgiving_uart"
    by (simp_all add: forgiving_uart_eq opened_uart_fields layout_consistent_def
        sink_attached_def example_tty_def bad_parity_frame_fields)
  note ps = rx_frame_summary [OF strict(1-4)]
  note pl = rx_frame_summary [OF lax(1-4)]
  have s1: "\<not> rx_parity_ok (rx_ticks bad_parity_frame parity_uart)"
    "parity_en (rx_ticks bad_parity_frame parity_uart) \<noteq> 0"
    "ignore_parity_errors (rx_ticks bad_parity_frame parity_uart) = 0"
    "delivered (rx_ticks bad_parity_frame parity_uart) = []"
    unfolding ps
    by (simp_all add: parity_uart_eq opened_uart_fields bad_parity_frame_fields)
  have l1: "\<not> rx_parity_ok (rx_ticks bad_parity_frame forgiving_uart)"
    "ignore_parity_errors (rx_ticks bad_parity_frame forgiving_uart) \<noteq> 0"
    "delivered (rx_ticks bad_parity_frame forgiving_uart) = []"
    "ucast (rx_character (rx_ticks bad_parity_frame forgiving_uart)) = (0x55 :: byte)"
    unfolding pl
    by (simp_all add: forgiving_uart_eq opened_uart_fields bad_parity_frame_fields
        rx_shift_def)
  have "snd (handle_rx 1 (rx_ticks bad_parity_frame parity_uart))
          = (rx_ticks bad_parity_frame parity_uart)\<lparr>rx_bit_index := - 1\<rparr>"
    using final_stop_slot_delivery [OF strict, of 1] s1 by simp
  then have dropped: "delivered (snd (handle_rx 1 (rx_ticks bad_parity_frame parity_uart))) = []"
    using s1(4) by simp
  obtain d where "snd (handle_rx 1 (rx_ticks bad_parity_frame forgiving_uart))
      = (rx_ticks bad_parity_frame forgiving_uart)
          \<lparr>delivered := delivered (rx_ticks bad_parity_frame forgiving_uart) @ [d],
             rx_bit_index := - 1\<rparr>"
    and "delivery_byte d = 0x55"
    using final_stop_slot_delivery [OF lax, of 1] l1 by auto
  then have kept: "map delivery_byte
      (delivered (snd (handle_rx 1 (rx_ticks bad_parity_frame forgiving_uart)))) = [0x55]"
    using l1(3) by simp
  have "ignore_parity_errors forgiving_uart = 1"
    by (simp add: forgiving_uart_eq)
  with strict s1(1) l1(1) dropped kept show ?thesis
    by (simp add: parity_uart_eq)
qed

lemma receive_character_detached: "\<not> sink_attached s \<Longrightarrow> receive_character c s = s"
  by (cases "current_tty s")
     (simp_all add: sink_attached_def receive_character_def)

lemma rx_data_ticks:
  assumes "rx_bit_index s = - 1" and "length ds = 8"
  shows "rx_character (rx_ticks (v0 # ds) s) = foldl (\<lambda>c v. rx_shift v c) 0 ds"
proof -
  from assms(2) obtain a0 a1 a2 a3 a4 a5 a6 a7 where "ds = [a0,a1,a2,a3,a4,a5,a6,a7]"
    by (rule list_of_length_8)
  with assms(1) show ?thesis
    by (simp add: rx_slots word_sle_eq word_sless_alt)
qed

lemma final_stop_bit_index_ge_8:
  assumes "layout_consistent s" and "stop_bits s = 1 \<or> stop_bits s = 2"
  shows "8 \<le> unat (final_stop_bit_index s)"
  using assms by (cases rule: layout_cases) simp_all

text \<open>
  C9. After the start tick and eight data ticks the register is the result of eight times
  setting or clearing bit 8 and shifting right, starting from 0, and its low eight bits are
  the sum of \<open>sample\<^sub>i * 2\<^sup>i\<close>. The slots that follow leave the register alone, and the
  byte handed over at the final stop slot, when one is handed over, has that value.
\<close>

theorem rx_assembly_is_lsb_first:
  fixes v0 :: c_int
  assumes "layout_consistent s" and "stop_bits s = 1 \<or> stop_bits s = 2"
    and "rx_bit_index s = - 1" and "length samples = 8"
    and "length rest = unat (final_stop_bit_index s) - 8"
  defines "after_data \<equiv> rx_ticks (v0 # map of_bool samples) s"
    and "p \<equiv> rx_ticks (v0 # map of_bool samples @ rest) s"
  shows "rx_character after_data = foldl (\<lambda>c v. rx_shift v c) 0 (map of_bool samples) \<and>
         unat (ucast (rx_character after_data) :: byte) = lsb_first_value samples \<and>
         rx_character p = rx_character after_data \<and>
         rx_bit_index p = final_stop_bit_index p \<and>
         (if sink_attached p \<and> (rx_parity_ok p \<or> ignore_parity_errors p \<noteq> 0)
          then \<exists>d. delivered (snd (handle_rx v p)) = delivered p @ [d] \<and>
                   unat (delivery_byte d) = lsb_first_value samples
          else delivered (snd (handle_rx v p)) = delivered p)"
proof -
  have reg: "rx_character after_data = foldl (\<lambda>c v. rx_shift v c) 0 (map of_bool samples)"
    unfolding after_data_def using assms(3,4) by (intro rx_data_ticks) simp_all
  have val: "unat (ucast (rx_character after_data) :: byte) = lsb_first_value samples"
    unfolding reg using assms(4) by (rule rx_assembled_value)
  have len: "length (v0 # map of_bool samples @ rest) = unat (final_stop_bit_index s) + 1"
    using assms(4,5) final_stop_bit_index_ge_8 [OF assms(1,2)] by simp
  note sm = rx_frame_summary [OF assms(1-3) len, folded p_def]
  have same: "rx_character p = rx_character after_data"
    using sm(8) assms(4) reg by simp
  have tick: "handle_rx v p =
     (HRTIMER_NORESTART,
      (if rx_parity_ok p \<or> ignore_parity_errors p \<noteq> 0
       then receive_character (ucast (rx_character p)) p
       else p)\<lparr>rx_bit_index := - 1\<rparr>)"
    using sm(1,2,3) assms(2) by (intro rx_final_tick) simp_all
  have last: "(if sink_attached p \<and> (rx_parity_ok p \<or> ignore_parity_errors p \<noteq> 0)
          then \<exists>d. delivered (snd (handle_rx v p)) = delivered p @ [d] \<and>
                   unat (delivery_byte d) = lsb_first_value samples
          else delivered (snd (handle_rx v p)) = delivered p)"
  proof (cases "sink_attached p")
    case True
    then obtain d where d: "receive_character (ucast (rx_character p)) p
        = p\<lparr>delivered := delivered p @ [d]\<rparr>" "delivery_byte d = ucast (rx_character p)"
      using receive_character_attached by blast
    from d(2) same val have "unat (delivery_byte d) = lsb_first_value samples"
      by simp
    with True tick d(1) show ?thesis by auto
  next
    case False
    then have "receive_character (ucast (rx_character p)) p = p"
      by (rule receive_character_detached)
    with False tick show ?thesis by simp
  qed
  from reg val same sm(1) last show ?thesis by blast
qed


lemma lsb_first_value_0x55: "lsb_first_value sample_bits_0x55 = 85"
  by (simp add: lsb_first_value_def sample_bits_0x55_def lessThan_Suc eval_nat_numeral)

theorem rx_assembly_is_lsb_first_witness:
  "layout_consistent opened_uart \<and> stop_bits opened_uart = 1 \<and>
   rx_bit_index opened_uart = - 1 \<and> length sample_bits_0x55 = 8 \<and>
   length ([] :: c_int list) = unat (final_stop_bit_index opened_uart) - 8 \<and>
   lsb_first_value sample_bits_0x55 = 85 \<and>
   unat (ucast (rx_character (rx_ticks (0 # map of_bool sample_bits_0x55) opened_uart)) :: byte)
     = 85"
proof -
  have h: "layout_consistent opened_uart" "stop_bits opened_uart = 1 \<or> stop_bits opened_uart = 2"
    "rx_bit_index opened_uart = - 1" "length sample_bits_0x55 = 8"
    "length ([] :: c_int list) = unat (final_stop_bit_index opened_uart) - 8"
    by (simp_all add: opened_uart_fields layout_consistent_def sample_bits_0x55_def)
  have "unat (ucast (rx_character (rx_ticks (0 # map of_bool sample_bits_0x55) opened_uart))
          :: byte) = lsb_first_value sample_bits_0x55"
    using rx_assembly_is_lsb_first [OF h, of 0 1] by blast
  then have "unat (ucast (rx_character (rx_ticks (0 # map of_bool sample_bits_0x55) opened_uart))
          :: byte) = 85"
    by (simp only: lsb_first_value_0x55)
  with h lsb_first_value_0x55 show ?thesis
    by (simp add: opened_uart_fields)
qed

section \<open>Round trip\<close>

lemma xor_of_bool: "of_bool p XOR of_bool q = (of_bool (p \<noteq> q) :: c_int)"
  by (cases p; cases q) simp_all

lemma foldl_xor_of_bool:
  "foldl (XOR) (of_bool c) (map of_bool bs) = (of_bool (foldl (\<noteq>) c bs) :: c_int)"
  by (induction bs arbitrary: c) (simp_all add: xor_of_bool)

lemma zero_or_one_of_bool: "x = 0 \<or> x = 1 \<Longrightarrow> x = (of_bool (x \<noteq> 0) :: c_int)"
  by auto

lemma frame_before_final_slot:
  fixes v0 pb :: c_int
  assumes "layout_consistent s" and "stop_bits s = 1 \<or> stop_bits s = 2"
    and "length ds = 8"
  defines "vs \<equiv> v0 # ds @ (if parity_en s \<noteq> 0 then [pb] else []) @
                  replicate (unat (stop_bits s) - 1) (1 :: c_int)"
  shows "v0 # ds @ (if parity_en s \<noteq> 0 then [pb] else []) @
           replicate (unat (stop_bits s)) 1 = vs @ [1]"
    and "length vs = unat (final_stop_bit_index s) + 1"
    and "take 8 (tl vs) = ds"
    and "parity_en s \<noteq> 0 \<Longrightarrow> vs ! 9 = pb"
proof -
  from assms(3) obtain a0 a1 a2 a3 a4 a5 a6 a7 where ds: "ds = [a0,a1,a2,a3,a4,a5,a6,a7]"
    by (rule list_of_length_8)
  from assms(1,2)
  show "v0 # ds @ (if parity_en s \<noteq> 0 then [pb] else []) @
           replicate (unat (stop_bits s)) 1 = vs @ [1]"
    unfolding vs_def ds by (cases rule: layout_cases) (simp_all add: replicate_two)
  from assms(1,2) show "length vs = unat (final_stop_bit_index s) + 1"
    unfolding vs_def ds by (cases rule: layout_cases) simp_all
  show "take 8 (tl vs) = ds"
    unfolding vs_def ds by simp
  show "vs ! 9 = pb" if "parity_en s \<noteq> 0"
    using that unfolding vs_def ds by simp
qed

text \<open>
  C1. One device in loopback, with a consistent layout, one or two stop bits, parity seed 0
  or 1, both engines idle, byte \<open>b\<close> at the head of the queue and a sink attached. The TX
  ticks of one frame drive the levels start bit low, the bits of \<open>b\<close> from the least
  significant, the parity accumulator when parity is enabled, and the stop bits high; all of
  them are 0 or 1. RX ticks that sample these levels one per tick hand exactly one byte to the
  sink, equal to \<open>b\<close>, with the parity-ok flag set, and return to waiting for a start edge.
\<close>

theorem framing_round_trip:
  assumes "layout_consistent s" and "stop_bits s = 1 \<or> stop_bits s = 2"
    and "parity_init s = 0 \<or> parity_init s = 1"
    and "tx_bit_index s = - 1" and "items (queue_tx s) = b # rest"
    and "rx_bit_index s = - 1" and "sink_attached s"
  defines "levels \<equiv> tx_levels (unat (final_stop_bit_index s) + 2) s"
  shows "levels =
           0 # map of_bool (map (bit b) [0..<8]) @
           (if parity_en s \<noteq> 0
            then [foldl (XOR) (parity_init s) (map of_bool (map (bit b) [0..<8]))] else []) @
           replicate (unat (stop_bits s)) 1 \<and>
         set levels \<subseteq> {0, 1} \<and>
         (\<exists>d. delivered (rx_ticks levels s) = delivered s @ [d] \<and> delivery_byte d = b) \<and>
         rx_parity_ok (rx_ticks levels s) \<and>
         rx_bit_index (rx_ticks levels s) = - 1"
proof -
  let ?D = "map of_bool (map (bit b) [0..<8]) :: c_int list"
  let ?P = "foldl (XOR) (parity_init s) ?D"
  let ?vs = "0 # ?D @ (if parity_en s \<noteq> 0 then [?P] else []) @
               replicate (unat (stop_bits s) - 1) (1 :: c_int)"
  have lv: "levels = 0 # ?D @ (if parity_en s \<noteq> 0 then [?P] else []) @
           replicate (unat (stop_bits s)) 1"
    unfolding levels_def using assms(1,2,4,5) by (rule tx_frame_levels)
  have len8: "length ?D = 8" by simp
  note fr = frame_before_final_slot [OF assms(1,2) len8, of 0 ?P]
  from lv fr(1) have split: "levels = ?vs @ [1]" by simp
  note sm = rx_frame_summary [OF assms(1,2,6) fr(2)]
  let ?p = "rx_ticks ?vs s"
  have ok: "rx_parity_ok ?p"
    using sm(9) fr(3,4) by auto
  have byte: "ucast (rx_character ?p) = b"
    using sm(8) fr(3) rx_assembled_byte [of 0 b] by simp
  have tick: "handle_rx 1 ?p =
     (HRTIMER_NORESTART,
      (if rx_parity_ok ?p \<or> ignore_parity_errors ?p \<noteq> 0
       then receive_character (ucast (rx_character ?p)) ?p
       else ?p)\<lparr>rx_bit_index := - 1\<rparr>)"
    using sm(1,2,3) assms(2) by (intro rx_final_tick) simp_all
  from sm(6) assms(7) have "sink_attached ?p" by simp
  then obtain d where d: "receive_character (ucast (rx_character ?p)) ?p
      = ?p\<lparr>delivered := delivered ?p @ [d]\<rparr>" "delivery_byte d = ucast (rx_character ?p)"
    using receive_character_attached by blast
  have final: "rx_ticks levels s = ?p\<lparr>delivered := delivered s @ [d], rx_bit_index := - 1\<rparr>"
    using tick ok d(1) sm(7) by (simp add: split rx_ticks_append)
  have bits: "set levels \<subseteq> {0, 1}"
  proof -
    have "?P = of_bool (foldl (\<noteq>) (parity_init s \<noteq> 0) (map (bit b) [0..<8]))"
      using zero_or_one_of_bool [OF assms(3)] foldl_xor_of_bool by metis
    then have "?P = 0 \<or> ?P = 1" by simp
    then show ?thesis
      unfolding lv by auto
  qed
  from final ok d(2) byte have
    "\<exists>d. delivered (rx_ticks levels s) = delivered s @ [d] \<and> delivery_byte d = b"
    "rx_parity_ok (rx_ticks levels s)" "rx_bit_index (rx_ticks levels s) = - 1"
    by simp_all
  with lv bits show ?thesis by blast
qed

lemma loopback_uart_eq:
  "loopback_uart = parity_uart
     \<lparr>queue_tx := \<lparr>items = [0x55], capacity = 256\<rparr>,
      timer_tx := \<lparr>active = True, calls = [Start 104166]\<rparr>\<rparr>"
  by (simp add: loopback_uart_def raspberry_soft_uart_send_string_def enqueue_string_def
      get_queue_room_def hrtimer_active_def hrtimer_start_def parity_uart_eq opened_uart_def
      raspberry_soft_uart_open_def initial_uart_def initialize_queue_def)

theorem framing_round_trip_witness:
  "layout_consistent loopback_uart \<and> stop_bits loopback_uart = 1 \<and>
   parity_init loopback_uart = 0 \<and> parity_en loopback_uart = 1 \<and>
   tx_bit_index loopback_uart = - 1 \<and>
   items (queue_tx loopback_uart) = [0x55] \<and> rx_bit_index loopback_uart = - 1 \<and>
   sink_attached loopback_uart \<and>
   map delivery_byte
     (delivered (rx_ticks (tx_levels (unat (final_stop_bit_index loopback_uart) + 2)
                             loopback_uart) loopback_uart)) = [0x55] \<and>
   rx_parity_ok (rx_ticks (tx_levels (unat (final_stop_bit_index loopback_uart) + 2)
                             loopback_uart) loopback_uart)"
proof -
  have h: "layout_consistent loopback_uart"
    "stop_bits loopback_uart = 1 \<or> stop_bits loopback_uart = 2"
    "parity_init loopback_uart = 0 \<or> parity_init loopback_uart = 1"
    "tx_bit_index loopback_uart = - 1" "items (queue_tx loopback_uart) = 0x55 # []"
    "rx_bit_index loopback_uart = - 1" "sink_attached loopback_uart"
    by (simp_all add: loopback_uart_eq parity_uart_eq opened_uart_fields layout_consistent_def
        sink_attached_def example_tty_def)
  have e: "delivered loopback_uart = []" "stop_bits loopback_uart = 1"
    "parity_init loopback_uart = 0" "parity_en loopback_uart = 1"
    by (simp_all add: loopback_uart_eq parity_uart_eq opened_uart_fields)
  from framing_round_trip [OF h] obtain d where
    "delivered (rx_ticks (tx_levels (unat (final_stop_bit_index loopback_uart) + 2)
                             loopback_uart) loopback_uart) = delivered loopback_uart @ [d]"
    "delivery_byte d = 0x55"
    "rx_parity_ok (rx_ticks (tx_levels (unat (final_stop_bit_index loopback_uart) + 2)
                             loopback_uart) loopback_uart)"
    by blast
  with h e show ?thesis by simp
qed

section \<open>The parity bit\<close>

lemma count_ones_of_bool:
  "length (filter (\<lambda>v. v = (1 :: c_int)) (map of_bool bs)) = length (filter (\<lambda>x. x) bs)"
  by (induction bs) simp_all

lemma foldl_neq_odd:
  "foldl (\<noteq>) c bs = (c \<noteq> odd (length (filter (\<lambda>x. x) bs)))"
  by (induction bs arbitrary: c) auto

lemma tx_parity_frame:
  assumes "parity_index s = 8" and "tx_bit_index s = - 1" and "items (queue_tx s) = b # rest"
  shows "tx_parity (tx_ticks 1 s) = parity_init s"
    and "tx_parity (tx_ticks 9 s) = foldl (XOR) (parity_init s) (map of_bool (map (bit b) [0..<8]))"
    and "tx_levels 10 s =
           0 # map of_bool (map (bit b) [0..<8]) @ [tx_parity (tx_ticks 9 s)]"
  using assms
  by (simp_all add: tx_ticks_numeral tx_levels_numeral tx_slots word_sle_eq word_sless_alt
      lsb_first_bits_explicit)


text \<open>
  C2. After \<^verbatim>\<open>set_parity\<close> has enabled parity, a frame for byte \<open>b\<close> seeds the accumulator
  with 1 for odd and 0 for even parity at the start tick, XORs the eight data bits it drives
  into it, and drives the accumulator as the tenth level. Among the data bits and the parity
  bit the number of ones is even exactly under even parity. For 0x00 and 0xFF the parity bit
  is the seed, for 0x01 its complement.
\<close>

theorem tx_parity_bit:
  fixes b :: byte and pe po ig :: c_int
  assumes "pe \<noteq> 0" and "tx_bit_index s0 = - 1" and "items (queue_tx s0) = b # rest"
  defines "s \<equiv> snd (raspberry_soft_uart_set_parity pe po ig s0)"
    and "seed \<equiv> (if po \<noteq> 0 then 1 else 0 :: c_int)"
  shows "tx_parity (tx_ticks 1 s) = seed \<and>
         tx_parity (tx_ticks 9 s) = foldl (XOR) seed (take 8 (drop 1 (tx_levels 10 s))) \<and>
         tx_levels 10 s =
           0 # map of_bool (map (bit b) [0..<8]) @ [tx_parity (tx_ticks 9 s)] \<and>
         (even (length (filter (\<lambda>v. v = 1) (drop 1 (tx_levels 10 s)))) \<longleftrightarrow> po = 0) \<and>
         (b = 0x00 \<or> b = 0xFF \<longrightarrow> tx_levels 10 s ! 9 = seed) \<and>
         (b = 0x01 \<longrightarrow> tx_levels 10 s ! 9 = (if po \<noteq> 0 then 0 else 1))"
proof -
  let ?Bs = "map (bit b) [0..<8]"
  let ?D = "map of_bool ?Bs :: c_int list"
  let ?P = "tx_parity (tx_ticks 9 s)"
  let ?n = "length (filter (\<lambda>x. x) ?Bs)"
  have fields: "parity_index s = 8" "parity_init s = seed" "tx_bit_index s = - 1"
    "items (queue_tx s) = b # rest"
    using assms(1-3)
    by (simp_all add: s_def seed_def raspberry_soft_uart_set_parity_def recalc_indices_def)
  note pf = tx_parity_frame [OF fields(1,3,4), unfolded fields(2)]
  have data: "take 8 (drop 1 (tx_levels 10 s)) = ?D"
    unfolding pf(3) by simp
  have seed: "seed = of_bool (po \<noteq> 0)"
    by (simp add: seed_def)
  have P: "?P = of_bool (foldl (\<noteq>) (po \<noteq> 0) ?Bs)"
    unfolding pf(2) seed by (rule foldl_xor_of_bool)
  have "length (filter (\<lambda>v. v = 1) (drop 1 (tx_levels 10 s)))
          = ?n + (if foldl (\<noteq>) (po \<noteq> 0) ?Bs then 1 else 0)"
    unfolding pf(3) P using count_ones_of_bool [of ?Bs] by simp
  then have count: "even (length (filter (\<lambda>v. v = 1) (drop 1 (tx_levels 10 s)))) \<longleftrightarrow> po = 0"
    unfolding foldl_neq_odd [of "po \<noteq> 0" ?Bs] by auto
  have nth: "tx_levels 10 s ! 9 = ?P"
    unfolding pf(3) by (simp add: lsb_first_bits_explicit)
  have special: "?P = seed" if "b = 0x00 \<or> b = 0xFF"
    using that unfolding P seed by (auto simp: lsb_first_bits_explicit)
  have one: "?P = (if po \<noteq> 0 then 0 else 1)" if "b = 0x01"
    using that unfolding P by (simp add: lsb_first_bits_explicit)
  have c1: "tx_parity (tx_ticks 1 s) = seed"
    by (rule pf(1))
  have c2: "tx_parity (tx_ticks 9 s) = foldl (XOR) seed (take 8 (drop 1 (tx_levels 10 s)))"
    unfolding data by (rule pf(2))
  have c5: "b = 0x00 \<or> b = 0xFF \<longrightarrow> tx_levels 10 s ! 9 = seed"
    unfolding nth using special by blast
  have c6: "b = 0x01 \<longrightarrow> tx_levels 10 s ! 9 = (if po \<noteq> 0 then 0 else 1)"
    unfolding nth using one by blast
  from c1 c2 pf(3) count c5 c6 show ?thesis
    by blast
qed


theorem tx_parity_bit_witness:
  "(1 :: c_int) \<noteq> 0 \<and> tx_bit_index one_queued_uart = - 1 \<and>
   items (queue_tx one_queued_uart) = [0x01] \<and>
   tx_levels 10 (snd (raspberry_soft_uart_set_parity 1 0 0 one_queued_uart)) ! 9 = 1 \<and>
   tx_levels 10 (snd (raspberry_soft_uart_set_parity 1 1 0 one_queued_uart)) ! 9 = 0"
proof -
  have h: "(1 :: c_int) \<noteq> 0" "tx_bit_index one_queued_uart = - 1"
    "items (queue_tx one_queued_uart) = 0x01 # []"
    by (simp_all add: one_queued_uart_def raspberry_soft_uart_send_string_def
        enqueue_string_def get_queue_room_def opened_uart_fields Let_def
        split: prod.splits)
  have "tx_levels 10 (snd (raspberry_soft_uart_set_parity 1 0 0 one_queued_uart)) ! 9
          = (if (0 :: c_int) \<noteq> 0 then 0 else 1)"
    using tx_parity_bit [OF h, of 0 0] by blast
  moreover
  have "tx_levels 10 (snd (raspberry_soft_uart_set_parity 1 1 0 one_queued_uart)) ! 9
          = (if (1 :: c_int) \<noteq> 0 then 0 else 1)"
    using tx_parity_bit [OF h, of 1 0] by blast
  ultimately show ?thesis
    using h by simp
qed

section \<open>The transmit queue through \<^verbatim>\<open>send\<close>\<close>

lemma dequeue_n_items: "dequeue_n k q = take k (items q)"
proof (induction k arbitrary: q)
  case 0
  show ?case by simp
next
  case (Suc k)
  show ?case
  proof (cases "items q")
    case Nil
    then show ?thesis by (simp add: dequeue_character_def)
  next
    case (Cons c cs)
    then show ?thesis by (simp add: dequeue_character_def Suc.IH)
  qed
qed

lemma apply_queue_op_keeps:
  assumes "length (items q) \<le> capacity q"
  shows "length (items (apply_queue_op x q)) \<le> capacity (apply_queue_op x q) \<and>
         capacity (apply_queue_op x q) = capacity q"
proof (cases x)
  case (Enqueue string)
  with assms show ?thesis
    by (simp add: enqueue_string_def get_queue_room_def)
next
  case Dequeue
  with assms show ?thesis
    by (cases "items q") (simp_all add: dequeue_character_def)
next
  case Initialize
  then show ?thesis
    by (simp add: initialize_queue_def)
qed

lemma apply_queue_ops_keeps:
  "length (items q) \<le> capacity q \<Longrightarrow>
     length (items (apply_queue_ops xs q)) \<le> capacity (apply_queue_ops xs q) \<and>
     capacity (apply_queue_ops xs q) = capacity q"
proof (induction xs arbitrary: q)
  case Nil
  then show ?case by simp
next
  case (Cons x xs)
  from apply_queue_op_keeps [OF Cons.prems, of x] Cons.IH [of "apply_queue_op x q"]
  show ?case by simp
qed

lemma send_string_queue:
  "fst (raspberry_soft_uart_send_string string s)
     = length (take (get_queue_room (queue_tx s)) string) \<and>
   queue_tx (snd (raspberry_soft_uart_send_string string s))
     = (queue_tx s)\<lparr>items := items (queue_tx s) @ take (get_queue_room (queue_tx s)) string\<rparr>"
  by (simp add: raspberry_soft_uart_send_string_def enqueue_string_def Let_def)

text \<open>
  C8, on the queue as the spec describes it. \<^verbatim>\<open>send\<close> returns the smaller of the length
  of the string and the room, which is 0 on a full queue; it appends exactly that many leading
  bytes, whole and in order, and keeps the capacity. Dequeueing afterwards yields the old
  content followed by the accepted bytes, oldest first. On a queue that respects its capacity,
  room plus size is the capacity before and after the call, and so it is after any sequence of
  queue operations that starts from a cleared queue.
\<close>

theorem send_enqueues_in_order:
  fixes string :: "byte list" and s :: uart
  defines "room \<equiv> raspberry_soft_uart_get_tx_queue_room s"
    and "count \<equiv> fst (raspberry_soft_uart_send_string string s)"
    and "s' \<equiv> snd (raspberry_soft_uart_send_string string s)"
  shows "count = min (length string) room \<and>
         items (queue_tx s') = items (queue_tx s) @ take count string \<and>
         capacity (queue_tx s') = capacity (queue_tx s) \<and>
         (room = 0 \<longrightarrow> count = 0 \<and> queue_tx s' = queue_tx s) \<and>
         dequeue_n k (queue_tx s') = take k (items (queue_tx s) @ take count string) \<and>
         (length (items (queue_tx s)) \<le> capacity (queue_tx s) \<longrightarrow>
            room + raspberry_soft_uart_get_tx_queue_size s = capacity (queue_tx s) \<and>
            raspberry_soft_uart_get_tx_queue_room s' + raspberry_soft_uart_get_tx_queue_size s'
              = capacity (queue_tx s)) \<and>
         get_queue_room (apply_queue_ops ops (initialize_queue q0)) +
           get_queue_size (apply_queue_ops ops (initialize_queue q0)) = capacity q0"
proof -
  note snd = send_string_queue [of string s, folded count_def s'_def]
  have room: "room = get_queue_room (queue_tx s)"
    by (simp add: room_def raspberry_soft_uart_get_tx_queue_room_def)
  have c: "count = min (length string) room"
    using snd by (simp add: room min.commute)
  have take: "take (get_queue_room (queue_tx s)) string = take count string"
    using c by (simp add: room [symmetric] min_def)
  have q: "queue_tx s' = (queue_tx s)\<lparr>items := items (queue_tx s) @ take count string\<rparr>"
    using snd take by simp
  have full: "count = 0 \<and> queue_tx s' = queue_tx s" if "room = 0"
    using that c q by simp
  have fifo: "dequeue_n k (queue_tx s') = take k (items (queue_tx s) @ take count string)"
    by (simp add: dequeue_n_items q)
  have inv: "room + raspberry_soft_uart_get_tx_queue_size s = capacity (queue_tx s) \<and>
            raspberry_soft_uart_get_tx_queue_room s' + raspberry_soft_uart_get_tx_queue_size s'
              = capacity (queue_tx s)"
    if "length (items (queue_tx s)) \<le> capacity (queue_tx s)"
    using that c
    by (simp add: q room raspberry_soft_uart_get_tx_queue_room_def
        raspberry_soft_uart_get_tx_queue_size_def get_queue_room_def get_queue_size_def)
  have "length (items (initialize_queue q0)) \<le> capacity (initialize_queue q0)"
    by (simp add: initialize_queue_def)
  from apply_queue_ops_keeps [OF this, of ops]
  have always: "get_queue_room (apply_queue_ops ops (initialize_queue q0)) +
           get_queue_size (apply_queue_ops ops (initialize_queue q0)) = capacity q0"
    by (simp add: get_queue_room_def get_queue_size_def initialize_queue_def)
  from c q full fifo inv always show ?thesis
    by simp
qed


theorem send_enqueues_in_order_witness:
  "raspberry_soft_uart_get_tx_queue_room (initial_uart 2) = 2 \<and>
   length (items (queue_tx (initial_uart 2))) \<le> capacity (queue_tx (initial_uart 2)) \<and>
   fst (raspberry_soft_uart_send_string [0x41, 0x42, 0x43] (initial_uart 2)) = 2 \<and>
   dequeue_n 3 (queue_tx (snd (raspberry_soft_uart_send_string [0x41, 0x42, 0x43]
                                 (initial_uart 2)))) = [0x41, 0x42] \<and>
   fst (raspberry_soft_uart_send_string [0x41, 0x42, 0x43] opened_uart) = 3 \<and>
   dequeue_n 3 (queue_tx (snd (raspberry_soft_uart_send_string [0x41, 0x42, 0x43]
                                 opened_uart))) = [0x41, 0x42, 0x43]"
proof -
  have small: "raspberry_soft_uart_get_tx_queue_room (initial_uart 2) = 2"
    "items (queue_tx (initial_uart 2)) = []" "capacity (queue_tx (initial_uart 2)) = 2"
    by (simp_all add: raspberry_soft_uart_get_tx_queue_room_def get_queue_room_def
        initial_uart_def)
  have big: "raspberry_soft_uart_get_tx_queue_room opened_uart = 256"
    by (simp add: raspberry_soft_uart_get_tx_queue_room_def get_queue_room_def
        opened_uart_fields)
  note a = send_enqueues_in_order
    [of "[0x41, 0x42, 0x43]" "initial_uart 2" 3 "[]" "queue_tx (initial_uart 2)"]
  note b = send_enqueues_in_order
    [of "[0x41, 0x42, 0x43]" opened_uart 3 "[]" "queue_tx opened_uart"]
  have a1: "fst (raspberry_soft_uart_send_string [0x41, 0x42, 0x43] (initial_uart 2)) = 2"
    using a [THEN conjunct1] by (simp add: small)
  have a2: "dequeue_n 3 (queue_tx (snd (raspberry_soft_uart_send_string [0x41, 0x42, 0x43]
                                 (initial_uart 2)))) = [0x41, 0x42]"
    using a [THEN conjunct2, THEN conjunct2, THEN conjunct2, THEN conjunct2, THEN conjunct1]
    unfolding a1 small by simp
  have b1: "fst (raspberry_soft_uart_send_string [0x41, 0x42, 0x43] opened_uart) = 3"
    using b [THEN conjunct1] by (simp add: big)
  have b2: "dequeue_n 3 (queue_tx (snd (raspberry_soft_uart_send_string [0x41, 0x42, 0x43]
                                 opened_uart))) = [0x41, 0x42, 0x43]"
    using b [THEN conjunct2, THEN conjunct2, THEN conjunct2, THEN conjunct2, THEN conjunct1]
    unfolding b1 by (simp add: opened_uart_fields)
  from small a1 a2 b1 b2 show ?thesis
    by simp
qed

section \<open>Start edge\<close>

lemma small_cursor_cases:
  fixes c :: c_int
  assumes "- 1 \<le> sint c" and "sint c < 10"
  obtains "c = - 1" | "c = 0" | "c = 1" | "c = 2" | "c = 3" | "c = 4" | "c = 5" | "c = 6"
    | "c = 7" | "c = 8" | "c = 9"
proof -
  have "sint c = - 1 \<or> sint c = 0 \<or> sint c = 1 \<or> sint c = 2 \<or> sint c = 3 \<or> sint c = 4
      \<or> sint c = 5 \<or> sint c = 6 \<or> sint c = 7 \<or> sint c = 8 \<or> sint c = 9"
  proof (cases "sint c \<le> 4")
    case True
    with assms(1) have "sint c = - 1 \<or> sint c = 0 \<or> sint c = 1 \<or> sint c = 2 \<or> sint c = 3
        \<or> sint c = 4"
      by linarith
    then show ?thesis by blast
  next
    case False
    with assms(2) have "sint c = 5 \<or> sint c = 6 \<or> sint c = 7 \<or> sint c = 8 \<or> sint c = 9"
      by linarith
    then show ?thesis by blast
  qed
  then consider "sint c = - 1" | "sint c = 0" | "sint c = 1" | "sint c = 2"
    | "sint c = 3" | "sint c = 4" | "sint c = 5" | "sint c = 6" | "sint c = 7" | "sint c = 8"
    | "sint c = 9"
    by blast
  then show ?thesis
  proof cases
    case 1
    then have "of_int (sint c) = (of_int (- 1) :: c_int)" by simp
    then have "c = - 1" by simp
    then show ?thesis by (rule that(1))
  next
    case 2
    then have "of_int (sint c) = (of_int 0 :: c_int)" by simp
    then have "c = 0" by simp
    then show ?thesis by (rule that(2))
  next
    case 3
    then have "of_int (sint c) = (of_int 1 :: c_int)" by simp
    then have "c = 1" by simp
    then show ?thesis by (rule that(3))
  next
    case 4
    then have "of_int (sint c) = (of_int 2 :: c_int)" by simp
    then have "c = 2" by simp
    then show ?thesis by (rule that(4))
  next
    case 5
    then have "of_int (sint c) = (of_int 3 :: c_int)" by simp
    then have "c = 3" by simp
    then show ?thesis by (rule that(5))
  next
    case 6
    then have "of_int (sint c) = (of_int 4 :: c_int)" by simp
    then have "c = 4" by simp
    then show ?thesis by (rule that(6))
  next
    case 7
    then have "of_int (sint c) = (of_int 5 :: c_int)" by simp
    then have "c = 5" by simp
    then show ?thesis by (rule that(7))
  next
    case 8
    then have "of_int (sint c) = (of_int 6 :: c_int)" by simp
    then have "c = 6" by simp
    then show ?thesis by (rule that(8))
  next
    case 9
    then have "of_int (sint c) = (of_int 7 :: c_int)" by simp
    then have "c = 7" by simp
    then show ?thesis by (rule that(9))
  next
    case 10
    then have "of_int (sint c) = (of_int 8 :: c_int)" by simp
    then have "c = 8" by simp
    then show ?thesis by (rule that(10))
  next
    case 11
    then have "of_int (sint c) = (of_int 9 :: c_int)" by simp
    then have "c = 9" by simp
    then show ?thesis by (rule that(11))
  qed
qed

lemma handle_rx_keeps_config:
  "parity_en (snd (handle_rx v s)) = parity_en s \<and>
   stop_bits (snd (handle_rx v s)) = stop_bits s \<and>
   parity_index (snd (handle_rx v s)) = parity_index s \<and>
   final_stop_bit_index (snd (handle_rx v s)) = final_stop_bit_index s"
  by (simp add: handle_rx_def receive_character_def Let_def split: option.splits)

lemma rx_tick_advances:
  assumes "layout_consistent p" and "stop_bits p = 1 \<or> stop_bits p = 2"
    and "- 1 \<le> sint (rx_bit_index p)"
    and "sint (rx_bit_index p) < sint (final_stop_bit_index p)"
  shows "sint (rx_bit_index (snd (handle_rx v p))) = sint (rx_bit_index p) + 1"
proof -
  from assms(1,2) have "sint (final_stop_bit_index p) \<le> 10"
    by (cases rule: layout_cases) simp_all
  with assms(4) have "sint (rx_bit_index p) < 10" by simp
  with assms(3) show ?thesis
  proof (cases rule: small_cursor_cases)
    case 1
    then show ?thesis by (simp add: handle_rx_start_slot)
  qed (use assms in \<open>cases rule: layout_cases;
         simp add: handle_rx_def word_sle_eq word_sless_alt\<close>)+
qed


lemma sint_final_stop_bit_index:
  assumes "layout_consistent s" and "stop_bits s = 1 \<or> stop_bits s = 2"
  shows "sint (final_stop_bit_index s) = int (unat (final_stop_bit_index s))"
  using assms by (cases rule: layout_cases) simp_all

text \<open>Within a frame the cursor counts the ticks: after \<open>n\<close> ticks, none of them at the
  final stop slot, it is \<open>n - 1\<close>.\<close>

lemma rx_cursor_in_frame:
  assumes "layout_consistent s" and "stop_bits s = 1 \<or> stop_bits s = 2"
    and "rx_bit_index s = - 1"
  shows "length vs \<le> unat (final_stop_bit_index s) + 1 \<Longrightarrow>
     sint (rx_bit_index (rx_ticks vs s)) = int (length vs) - 1 \<and>
     parity_en (rx_ticks vs s) = parity_en s \<and>
     stop_bits (rx_ticks vs s) = stop_bits s \<and>
     parity_index (rx_ticks vs s) = parity_index s \<and>
     final_stop_bit_index (rx_ticks vs s) = final_stop_bit_index s"
proof (induction vs rule: rev_induct)
  case Nil
  from assms(3) show ?case by simp
next
  case (snoc v vs)
  let ?p = "rx_ticks vs s"
  from snoc.prems have len: "length vs \<le> unat (final_stop_bit_index s)"
    by simp
  with snoc.IH have p: "sint (rx_bit_index ?p) = int (length vs) - 1"
    "parity_en ?p = parity_en s" "stop_bits ?p = stop_bits s"
    "parity_index ?p = parity_index s" "final_stop_bit_index ?p = final_stop_bit_index s"
    by simp_all
  from assms(1) p(2-5) have lc: "layout_consistent ?p"
    by (simp add: layout_consistent_def)
  from assms(2) p(3) have sb: "stop_bits ?p = 1 \<or> stop_bits ?p = 2"
    by simp
  have lo: "- 1 \<le> sint (rx_bit_index ?p)"
    using p(1) by simp
  have hi: "sint (rx_bit_index ?p) < sint (final_stop_bit_index ?p)"
  proof -
    from len have "int (length vs) \<le> int (unat (final_stop_bit_index s))"
      by (simp only: of_nat_le_iff)
    with p(1) sint_final_stop_bit_index [OF assms(1,2)] show ?thesis
      unfolding p(5) by linarith
  qed
  have "sint (rx_bit_index (snd (handle_rx v ?p))) = sint (rx_bit_index ?p) + 1"
    using lc sb lo hi by (rule rx_tick_advances)
  with p handle_rx_keeps_config [of v ?p] show ?case
    by (simp add: rx_ticks_append)
qed

text \<open>
  C5, as amended. With the cursor away from -1 the edge handler changes nothing. With the
  cursor at -1 it starts the RX timer at half a period and leaves the cursor at -1, so an edge
  between the arming and the first tick starts the timer again. From the first tick on, under
  a consistent layout with one or two stop bits, the cursor counts the ticks of the frame:
  after \<open>n\<close> ticks, for every \<open>n\<close> from 1 up to and including the tick that reaches the
  final stop slot, it is \<open>n - 1\<close>, hence not -1, and the edge handler is the identity there.
  Only the tick at the final stop slot brings the cursor back to -1.
\<close>

theorem edge_ignored_in_frame:
  "(rx_bit_index s \<noteq> - 1 \<longrightarrow> handle_rx_start s = s) \<and>
   (rx_bit_index s = - 1 \<longrightarrow>
      handle_rx_start s = s\<lparr>timer_rx := hrtimer_start (timer_rx s) (half_period s)\<rparr> \<and>
      rx_bit_index (handle_rx_start s) = - 1 \<and>
      rx_bit_index (snd (handle_rx v (handle_rx_start s))) = 0) \<and>
   (rx_bit_index s = - 1 \<and> layout_consistent s \<and> (stop_bits s = 1 \<or> stop_bits s = 2) \<and>
    vs \<noteq> [] \<and> length vs \<le> unat (final_stop_bit_index s) + 1 \<longrightarrow>
      sint (rx_bit_index (rx_ticks vs (handle_rx_start s))) = int (length vs) - 1 \<and>
      rx_bit_index (rx_ticks vs (handle_rx_start s)) \<noteq> - 1 \<and>
      handle_rx_start (rx_ticks vs (handle_rx_start s)) = rx_ticks vs (handle_rx_start s)) \<and>
   (rx_bit_index s = - 1 \<and> layout_consistent s \<and> (stop_bits s = 1 \<or> stop_bits s = 2) \<and>
    length vs = unat (final_stop_bit_index s) + 1 \<longrightarrow>
      rx_bit_index (rx_ticks (vs @ [v]) (handle_rx_start s)) = - 1)"
proof (intro conjI impI)
  show "handle_rx_start s = s" if "rx_bit_index s \<noteq> - 1"
    using that by (simp add: handle_rx_start_def)
  show "handle_rx_start s = s\<lparr>timer_rx := hrtimer_start (timer_rx s) (half_period s)\<rparr>"
    if "rx_bit_index s = - 1"
    using that by (simp add: handle_rx_start_def)
  show "rx_bit_index (handle_rx_start s) = - 1" if "rx_bit_index s = - 1"
    using that by (simp add: handle_rx_start_def)
  show "rx_bit_index (snd (handle_rx v (handle_rx_start s))) = 0" if "rx_bit_index s = - 1"
    using that by (simp add: handle_rx_start_def handle_rx_def)
  let ?a = "handle_rx_start s"
  {
    assume idle: "rx_bit_index s = - 1" and lc: "layout_consistent s"
      and sb: "stop_bits s = 1 \<or> stop_bits s = 2"
    have "rx_bit_index ?a = - 1" "layout_consistent ?a" "stop_bits ?a = 1 \<or> stop_bits ?a = 2"
      "final_stop_bit_index ?a = final_stop_bit_index s"
      using idle lc sb by (simp_all add: handle_rx_start_def layout_consistent_def)
  } note armed = this
  {
    assume h: "rx_bit_index s = - 1 \<and> layout_consistent s \<and>
      (stop_bits s = 1 \<or> stop_bits s = 2) \<and>
      vs \<noteq> [] \<and> length vs \<le> unat (final_stop_bit_index s) + 1"
    then have a: "rx_bit_index ?a = - 1" "layout_consistent ?a"
      "stop_bits ?a = 1 \<or> stop_bits ?a = 2"
      "final_stop_bit_index ?a = final_stop_bit_index s"
      using armed by simp_all
    from h a(4) have "length vs \<le> unat (final_stop_bit_index ?a) + 1" by simp
    from rx_cursor_in_frame [OF a(2,3,1) this]
    have cur: "sint (rx_bit_index (rx_ticks vs ?a)) = int (length vs) - 1"
      by simp
    from h have "0 < length vs" by simp
    with cur have "sint (rx_bit_index (rx_ticks vs ?a)) \<noteq> sint (- 1 :: c_int)"
      by simp
    then have off: "rx_bit_index (rx_ticks vs ?a) \<noteq> - 1"
      by metis
    from off have "handle_rx_start (rx_ticks vs ?a) = rx_ticks vs ?a"
      by (simp add: handle_rx_start_def)
    note cur off this
  } note inside = this
  show "sint (rx_bit_index (rx_ticks vs ?a)) = int (length vs) - 1"
    if "rx_bit_index s = - 1 \<and> layout_consistent s \<and>
      (stop_bits s = 1 \<or> stop_bits s = 2) \<and>
      vs \<noteq> [] \<and> length vs \<le> unat (final_stop_bit_index s) + 1"
    using inside(1) [OF that] .
  show "rx_bit_index (rx_ticks vs ?a) \<noteq> - 1"
    if "rx_bit_index s = - 1 \<and> layout_consistent s \<and>
      (stop_bits s = 1 \<or> stop_bits s = 2) \<and>
      vs \<noteq> [] \<and> length vs \<le> unat (final_stop_bit_index s) + 1"
    using inside(2) [OF that] .
  show "handle_rx_start (rx_ticks vs ?a) = rx_ticks vs ?a"
    if "rx_bit_index s = - 1 \<and> layout_consistent s \<and>
      (stop_bits s = 1 \<or> stop_bits s = 2) \<and>
      vs \<noteq> [] \<and> length vs \<le> unat (final_stop_bit_index s) + 1"
    using inside(3) [OF that] .
  show "rx_bit_index (rx_ticks (vs @ [v]) ?a) = - 1"
    if h: "rx_bit_index s = - 1 \<and> layout_consistent s \<and>
      (stop_bits s = 1 \<or> stop_bits s = 2) \<and>
      length vs = unat (final_stop_bit_index s) + 1"
  proof -
    from h have a: "rx_bit_index ?a = - 1" "layout_consistent ?a"
      "stop_bits ?a = 1 \<or> stop_bits ?a = 2"
      "final_stop_bit_index ?a = final_stop_bit_index s"
      using armed by simp_all
    from h a(4) have len: "length vs = unat (final_stop_bit_index ?a) + 1" by simp
    note sm = rx_frame_summary [OF a(2,3,1) len]
    have "stop_bits (rx_ticks vs ?a) = 1 \<or> stop_bits (rx_ticks vs ?a) = 2"
      using sm(3) a(3) by simp
    from rx_final_tick [OF sm(2) this sm(1), of v]
    show ?thesis
      by (simp add: rx_ticks_append)
  qed
qed

theorem edge_ignored_in_frame_witness:
  "rx_bit_index opened_uart = - 1 \<and> layout_consistent opened_uart \<and>
   stop_bits opened_uart = 1 \<and> [0, 1, 0 :: c_int] \<noteq> [] \<and>
   length [0, 1, 0 :: c_int] \<le> unat (final_stop_bit_index opened_uart) + 1 \<and>
   rx_bit_index receiving_uart \<noteq> - 1 \<and>
   handle_rx_start receiving_uart = receiving_uart \<and>
   rx_bit_index armed_uart = - 1 \<and>
   rx_bit_index (snd (handle_rx 0 armed_uart)) = 0"
proof -
  have h: "rx_bit_index opened_uart = - 1" "layout_consistent opened_uart"
    "stop_bits opened_uart = 1" "[0, 1, 0 :: c_int] \<noteq> []"
    "length [0, 1, 0 :: c_int] \<le> unat (final_stop_bit_index opened_uart) + 1"
    by (simp_all add: opened_uart_fields layout_consistent_def)
  note t = edge_ignored_in_frame [of opened_uart 0 "[0, 1, 0]", folded armed_uart_def,
      folded receiving_uart_def]
  from t h have "rx_bit_index receiving_uart \<noteq> - 1"
    "handle_rx_start receiving_uart = receiving_uart"
    "rx_bit_index armed_uart = - 1" "rx_bit_index (snd (handle_rx 0 armed_uart)) = 0"
    by blast+
  with h show ?thesis by blast
qed

text \<open>
  The claim as written fails: after an edge has armed the RX timer and before the first tick,
  the cursor is still -1 and a second edge calls \<^verbatim>\<open>hrtimer_start\<close> once more.
\<close>

theorem edge_after_arming_counterexample:
  "hrtimer_active (timer_rx armed_uart) \<and> rx_bit_index armed_uart = - 1 \<and>
   handle_rx_start armed_uart \<noteq> armed_uart \<and>
   calls (timer_rx armed_uart) = [Start 52083] \<and>
   calls (timer_rx (handle_rx_start armed_uart)) = [Start 52083, Start 52083]"
  by (simp add: armed_uart_def opened_uart_def handle_rx_start_def raspberry_soft_uart_open_def
      initial_uart_def hrtimer_start_def hrtimer_active_def initialize_queue_def)

end
